theory Spec2Isabelle
  imports
    Complex_Main
    "HOL-Library.Word"
    "HOL-Library.Multiset"
    "HOL-Library.Char_ord"
    "HOL-Library.List_Lexorder"
    "HOL-Library.Product_Lexorder"
begin

unbundle bit_operations_syntax

chapter \<open>netscout: a shallow embedding of the scanner and its properties\<close>

text \<open>
  The development follows the Go packages of the repository: \<open>parser\<close> (targets and
  ports), \<open>result\<close> (the Collector), \<open>worker\<close> (the probe and the pool), \<open>scanner\<close>
  (the orchestration) and \<open>main\<close> (exit codes). Go's \<open>int\<close> is modelled as \<open>int\<close>:
  every value the modelled code computes stays far inside 64 bits (ports, counters,
  nanosecond durations), and \<open>strconv.Atoi\<close> has its range check written out.
  Strings are byte lists, as Go's are.
\<close>

section \<open>Package parser: port specifications\<close>

subsection \<open>The library functions the parser calls\<close>

text \<open>
  \<open>strings.Split s sep\<close> for a one-byte separator: the pieces between the separators,
  one piece more than there are separators (so the empty string gives one empty piece).
\<close>

fun Split_from :: "char \<Rightarrow> string \<Rightarrow> string \<Rightarrow> string list" where
  "Split_from sep cur [] = [rev cur]"
| "Split_from sep cur (c # cs) =
     (if c = sep then rev cur # Split_from sep [] cs else Split_from sep (c # cur) cs)"

definition Split :: "string \<Rightarrow> char \<Rightarrow> string list" where
  "Split s sep = Split_from sep [] s"

text \<open>
  \<open>strings.TrimSpace\<close>: the runes that are Unicode white space are removed at the
  front, then at the back. A Go string is a sequence of bytes read as UTF-8, so the white
  space runes are given by their encodings: the six of ASCII (tab, newline, vertical tab,
  form feed, carriage return, space), U+0085 and U+00A0 in two bytes, and U+1680,
  U+2000 to U+200A, U+2028, U+2029, U+202F, U+205F and U+3000 in three. A byte
  sequence that is not the encoding of such a rune, an invalid one included, stops the
  trimming.
\<close>

definition space_runes :: "string list" where
  "space_runes =
     [[CHR 0x09], [CHR 0x0A], [CHR 0x0B], [CHR 0x0C], [CHR 0x0D], [CHR 0x20],
      [CHR 0xC2, CHR 0x85], [CHR 0xC2, CHR 0xA0],
      [CHR 0xE1, CHR 0x9A, CHR 0x80],
      [CHR 0xE2, CHR 0x80, CHR 0x80], [CHR 0xE2, CHR 0x80, CHR 0x81],
      [CHR 0xE2, CHR 0x80, CHR 0x82], [CHR 0xE2, CHR 0x80, CHR 0x83],
      [CHR 0xE2, CHR 0x80, CHR 0x84], [CHR 0xE2, CHR 0x80, CHR 0x85],
      [CHR 0xE2, CHR 0x80, CHR 0x86], [CHR 0xE2, CHR 0x80, CHR 0x87],
      [CHR 0xE2, CHR 0x80, CHR 0x88], [CHR 0xE2, CHR 0x80, CHR 0x89],
      [CHR 0xE2, CHR 0x80, CHR 0x8A],
      [CHR 0xE2, CHR 0x80, CHR 0xA8], [CHR 0xE2, CHR 0x80, CHR 0xA9],
      [CHR 0xE2, CHR 0x80, CHR 0xAF],
      [CHR 0xE2, CHR 0x81, CHR 0x9F],
      [CHR 0xE3, CHR 0x80, CHR 0x80]]"

text \<open>
  \<open>strip_rune runes s\<close>: what follows in \<open>s\<close> after the first of \<open>runes\<close> that \<open>s\<close>
  begins with, if there is one.
\<close>

fun strip_rune :: "string list \<Rightarrow> string \<Rightarrow> string option" where
  "strip_rune [] s = None"
| "strip_rune (e # es) s =
     (if e \<noteq> [] \<and> take (length e) s = e then Some (drop (length e) s) else strip_rune es s)"

function TrimLeft_runes :: "string list \<Rightarrow> string \<Rightarrow> string" where
  "TrimLeft_runes runes s =
     (case strip_rune runes s of
        None \<Rightarrow> s
      | Some rest \<Rightarrow> if length rest < length s then TrimLeft_runes runes rest else s)"
  by pat_completeness auto
termination
  by (relation "measure (\<lambda>(runes, s). length s)") auto

text \<open>
  At the back the last rune is read backwards; it is white space exactly when the string
  ends with the encoding of a white space rune, that is, when the reversed string begins
  with the reversed encoding.
\<close>

definition TrimSpace :: "string \<Rightarrow> string" where
  "TrimSpace s =
     rev (TrimLeft_runes (map rev space_runes) (rev (TrimLeft_runes space_runes s)))"

text \<open>\<open>strings.Contains s sep\<close> for a one-byte \<open>sep\<close>.\<close>

definition Contains_char :: "string \<Rightarrow> char \<Rightarrow> bool" where
  "Contains_char s c = (c \<in> set s)"

text \<open>
  \<open>strconv.Atoi\<close>: an optional sign, then one or more decimal digits, and the value
  must fit Go's 64-bit \<open>int\<close>; anything else is a syntax or a range error.
\<close>

datatype NumError = ErrSyntax | ErrRange

definition digit_of :: "char \<Rightarrow> int option" where
  "digit_of c = (let n = (of_char c :: nat) in
     if 48 \<le> n \<and> n \<le> 57 then Some (int n - 48) else None)"

fun digits_from :: "int \<Rightarrow> string \<Rightarrow> int option" where
  "digits_from n [] = Some n"
| "digits_from n (c # cs) =
     (case digit_of c of None \<Rightarrow> None | Some d \<Rightarrow> digits_from (n * 10 + d) cs)"

definition in_int64 :: "int \<Rightarrow> bool" where
  "in_int64 n = (- (2 ^ 63) \<le> n \<and> n \<le> 2 ^ 63 - 1)"

definition Atoi :: "string \<Rightarrow> NumError + int" where
  "Atoi s =
     (let (neg, ds) = (case s of
            c # cs \<Rightarrow> if c = CHR ''-'' then (True, cs)
                      else if c = CHR ''+'' then (False, cs) else (False, s)
          | [] \<Rightarrow> (False, s))
      in if ds = [] then Inl ErrSyntax
         else (case digits_from 0 ds of
                 None \<Rightarrow> Inl ErrSyntax
               | Some n \<Rightarrow>
                   (let v = (if neg then - n else n)
                    in if in_int64 v then Inr v else Inl ErrRange)))"

subsection \<open>ParsePorts, parsePortRange and validatePort\<close>

text \<open>
  Every \<open>fmt.Errorf\<close> of the port parser is a constructor, with the values its message
  prints; \<open>StartPortErr\<close> and \<open>EndPortErr\<close> wrap the error of \<open>validatePort\<close>.
\<close>

datatype port_error =
    InvalidPort string
  | InvalidPortRange string
  | InvalidStartPort string NumError
  | InvalidEndPort string NumError
  | PortOutOfRange int
  | StartPortErr port_error
  | EndPortErr port_error
  | StartGreaterThanEnd int int
  | RangeTooLarge int
  | NoValidPorts

definition validatePort :: "int \<Rightarrow> port_error option" where
  "validatePort port =
     (if port < 1 \<or> port > 65535 then Some (PortOutOfRange port) else None)"

text \<open>The loop \<open>for p := start; p <= end; p++\<close> of \<open>parsePortRange\<close>.\<close>

function range_loop :: "int \<Rightarrow> int \<Rightarrow> int list \<Rightarrow> int list" where
  "range_loop p e ports = (if p \<le> e then range_loop (p + 1) e (ports @ [p]) else ports)"
  by pat_completeness auto
termination
  by (relation "measure (\<lambda>(p, e, ports). nat (e + 1 - p))") auto

definition parsePortRange :: "string \<Rightarrow> port_error + int list" where
  "parsePortRange rangeSpec =
     (case Split rangeSpec (CHR ''-'') of
        [p0, p1] \<Rightarrow>
          (case Atoi (TrimSpace p0) of
             Inl err \<Rightarrow> Inl (InvalidStartPort rangeSpec err)
           | Inr start \<Rightarrow>
               (case Atoi (TrimSpace p1) of
                  Inl err \<Rightarrow> Inl (InvalidEndPort rangeSpec err)
                | Inr end' \<Rightarrow>
                    (case validatePort start of
                       Some err \<Rightarrow> Inl (StartPortErr err)
                     | None \<Rightarrow>
                         (case validatePort end' of
                            Some err \<Rightarrow> Inl (EndPortErr err)
                          | None \<Rightarrow>
                              if start > end' then Inl (StartGreaterThanEnd start end')
                              else if end' - start > 65535
                                then Inl (RangeTooLarge (end' - start + 1))
                              else Inr (range_loop start end' [])))))
      | _ \<Rightarrow> Inl (InvalidPortRange rangeSpec))"

text \<open>
  The inner loop of \<open>ParsePorts\<close> over the ports of a range: a port not yet seen is
  appended and marked. \<open>seen\<close> is the Go map \<open>map[int]bool\<close>, a missing key reading
  \<open>false\<close>.
\<close>

fun add_ports :: "int list \<Rightarrow> int list \<Rightarrow> (int \<Rightarrow> bool) \<Rightarrow> int list \<times> (int \<Rightarrow> bool)" where
  "add_ports [] ports seen = (ports, seen)"
| "add_ports (p # ps) ports seen =
     (if \<not> seen p then add_ports ps (ports @ [p]) (seen(p := True))
      else add_ports ps ports seen)"

text \<open>The loop of \<open>ParsePorts\<close> over the comma-separated parts.\<close>

fun ParsePorts_loop ::
  "string list \<Rightarrow> int list \<Rightarrow> (int \<Rightarrow> bool) \<Rightarrow> port_error + int list" where
  "ParsePorts_loop [] ports seen = Inr ports"
| "ParsePorts_loop (part0 # parts) ports seen =
     (let part = TrimSpace part0 in
      if part = [] then ParsePorts_loop parts ports seen
      else if Contains_char part (CHR ''-'') then
        (case parsePortRange part of
           Inl err \<Rightarrow> Inl err
         | Inr rangePorts \<Rightarrow>
             (case add_ports rangePorts ports seen of
                (ports', seen') \<Rightarrow> ParsePorts_loop parts ports' seen'))
      else
        (case Atoi part of
           Inl err \<Rightarrow> Inl (InvalidPort part)
         | Inr port \<Rightarrow>
             (case validatePort port of
                Some err \<Rightarrow> Inl err
              | None \<Rightarrow>
                  if \<not> seen port
                  then ParsePorts_loop parts (ports @ [port]) (seen(port := True))
                  else ParsePorts_loop parts ports seen)))"

definition ParsePorts :: "string \<Rightarrow> port_error + int list" where
  "ParsePorts portSpec =
     (case ParsePorts_loop (Split portSpec (CHR '','')) [] (\<lambda>p. False) of
        Inl err \<Rightarrow> Inl err
      | Inr ports \<Rightarrow> if ports = [] then Inl NoValidPorts else Inr ports)"

text \<open>
  The specification's two kinds of port error: \<open>RangeTooLarge\<close> is the size check of a
  range, and every other error of a token is an invalid port.
\<close>

fun is_RangeTooLarge :: "port_error \<Rightarrow> bool" where
  "is_RangeTooLarge (RangeTooLarge n) = True"
| "is_RangeTooLarge e = False"

fun is_InvalidPort :: "port_error \<Rightarrow> bool" where
  "is_InvalidPort (RangeTooLarge n) = False"
| "is_InvalidPort NoValidPorts = False"
| "is_InvalidPort e = True"

text \<open>
  A token as the specification reads it: a single port in 1..65535, or a range
  \<open>a-b\<close> of two such ports with \<open>a \<le> b\<close>.
\<close>

definition port_ok :: "int \<Rightarrow> bool" where
  "port_ok p = (1 \<le> p \<and> p \<le> 65535)"

definition valid_token :: "string \<Rightarrow> bool" where
  "valid_token t =
     (if CHR ''-'' \<in> set t then
        (case Split t (CHR ''-'') of
           [a, b] \<Rightarrow>
             (case (Atoi (TrimSpace a), Atoi (TrimSpace b)) of
                (Inr lo, Inr hi) \<Rightarrow> port_ok lo \<and> port_ok hi \<and> lo \<le> hi
              | _ \<Rightarrow> False)
         | _ \<Rightarrow> False)
      else (case Atoi t of Inr p \<Rightarrow> port_ok p | Inl err \<Rightarrow> False))"

text \<open>A part of the port specification that the loop skips or accepts.\<close>

definition part_ok :: "string \<Rightarrow> bool" where
  "part_ok u = (if TrimSpace u = [] then True else valid_token (TrimSpace u))"

definition part_invalid :: "string \<Rightarrow> bool" where
  "part_invalid u = (TrimSpace u \<noteq> [] \<and> \<not> valid_token (TrimSpace u))"

section \<open>Package scanner: the rate limiter's interval\<close>

text \<open>
  \<open>time.Second\<close> in nanoseconds, and the interval \<open>time.Second / time.Duration(R)\<close>
  that \<open>New\<close> computes when \<open>cfg.RateLimit > 0\<close>. Go's integer division truncates
  towards zero.
\<close>

definition Second :: int where
  "Second = 1000000000"

definition go_div :: "int \<Rightarrow> int \<Rightarrow> int" where
  "go_div a b = sgn a * sgn b * (\<bar>a\<bar> div \<bar>b\<bar>)"

definition rate_interval :: "int \<Rightarrow> int option" where
  "rate_interval RateLimit =
     (if RateLimit > 0 then Some (go_div Second RateLimit) else None)"


section \<open>Go channels\<close>

text \<open>
  A buffered channel: the queued values, the capacity and whether it has been closed.
  A send on a closed channel panics, a send on a full channel blocks; a receive takes the
  oldest value, blocks on an empty open channel, and reports the end on an empty closed
  one (where a \<open>range\<close> loop stops).
\<close>

record 'a chan =
  chan_buf :: "'a list"
  chan_cap :: nat
  chan_closed :: bool

definition make_chan :: "nat \<Rightarrow> 'a chan" where
  "make_chan n = \<lparr>chan_buf = [], chan_cap = n, chan_closed = False\<rparr>"

datatype 'a send_result = Sent "'a chan" | SendBlocked | SendPanic

definition chan_send :: "'a \<Rightarrow> 'a chan \<Rightarrow> 'a send_result" where
  "chan_send x c =
     (if chan_closed c then SendPanic
      else if length (chan_buf c) < chan_cap c then Sent (c\<lparr>chan_buf := chan_buf c @ [x]\<rparr>)
      else SendBlocked)"

datatype 'a recv_result = Received 'a "'a chan" | RecvBlocked | RecvEnd

definition chan_recv :: "'a chan \<Rightarrow> 'a recv_result" where
  "chan_recv c =
     (case chan_buf c of
        x # xs \<Rightarrow> Received x (c\<lparr>chan_buf := xs\<rparr>)
      | [] \<Rightarrow> if chan_closed c then RecvEnd else RecvBlocked)"

definition chan_close :: "'a chan \<Rightarrow> 'a chan option" where
  \<comment> \<open>\<open>None\<close>: closing a closed channel panics.\<close>
  "chan_close c = (if chan_closed c then None else Some (c\<lparr>chan_closed := True\<rparr>))"

section \<open>Package result: outcomes, the summary and the Collector\<close>

text \<open>
  \<open>type Status string\<close> with its four constants. A \<open>Result\<close> may hold any string as
  its status (the zero value is the empty string); the probe only ever stores three of
  the constants.
\<close>

type_synonym Status = string

definition StatusOpen :: Status where "StatusOpen = ''open''"
definition StatusClosed :: Status where "StatusClosed = ''closed''"
definition StatusFiltered :: Status where "StatusFiltered = ''filtered''"
definition StatusError :: Status where "StatusError = ''error''"

definition known_status :: "Status \<Rightarrow> bool" where
  "known_status s =
     (s = StatusOpen \<or> s = StatusClosed \<or> s = StatusFiltered \<or> s = StatusError)"

text \<open>Times and durations are nanosecond counts.\<close>

record Result =
  IP :: string
  Port :: int
  Status :: Status
  Timestamp :: int
  Duration :: int
  Error :: string

record Summary =
  TotalScanned :: int
  OpenPorts :: int
  ClosedPorts :: int
  Filtered :: int
  Errors :: int
  Summary_Duration :: int
  StartTime :: int
  EndTime :: int

text \<open>
  What the Collector has written to its writer, one entry per write, in order; the
  entries hold the values a line or document is formatted from.
\<close>

datatype written =
    VerboseLine string int Status
  | TextLine string int Status
  | CSVHeader
  | CSVRecord Result
  | JSONDocument Summary "Result list"

record Collector =
  results :: "Result list"
  summary :: Summary
  resultChan :: "Result chan"
  doneChan_closed :: bool
  writer :: "written list"
  format :: string
  verbose :: bool

definition NewCollector :: "string \<Rightarrow> bool \<Rightarrow> int \<Rightarrow> Collector" where
  "NewCollector fmt verb now =
     \<lparr>results = [],
      summary = \<lparr>TotalScanned = 0, OpenPorts = 0, ClosedPorts = 0, Filtered = 0, Errors = 0,
                 Summary_Duration = 0, StartTime = now, EndTime = 0\<rparr>,
      resultChan = make_chan 1000,
      doneChan_closed = False,
      writer = [],
      format = fmt,
      verbose = verb\<rparr>"

definition updateSummary :: "Collector \<Rightarrow> Result \<Rightarrow> Collector" where
  "updateSummary c r =
     (let s = (summary c)\<lparr>TotalScanned := TotalScanned (summary c) + 1\<rparr>
      in c\<lparr>summary :=
           (if Status r = StatusOpen then s\<lparr>OpenPorts := OpenPorts s + 1\<rparr>
            else if Status r = StatusClosed then s\<lparr>ClosedPorts := ClosedPorts s + 1\<rparr>
            else if Status r = StatusFiltered then s\<lparr>Filtered := Filtered s + 1\<rparr>
            else if Status r = StatusError then s\<lparr>Errors := Errors s + 1\<rparr>
            else s)\<rparr>)"

definition printResult :: "Collector \<Rightarrow> Result \<Rightarrow> Collector" where
  "printResult c r =
     (if Status r = StatusOpen
      then c\<lparr>writer := writer c @ [VerboseLine (IP r) (Port r) (Status r)]\<rparr> else c)"

text \<open>The body of the loop of \<open>collect\<close>, for a received outcome \<open>r\<close>.\<close>

definition collect_body :: "Collector \<Rightarrow> Result \<Rightarrow> Collector" where
  "collect_body c r =
     (let c1 = updateSummary (c\<lparr>results := results c @ [r]\<rparr>) r
      in if verbose c1 \<and> format c1 = ''text'' then printResult c1 r else c1)"

text \<open>
  \<open>Submit\<close> is a send on the result channel. One turn of the goroutine \<open>collect\<close> is a
  receive: an outcome is folded in, and at the end of the closed channel the loop is left
  and \<open>doneChan\<close> is closed. \<open>Blocked\<close> means the operation cannot proceed now.
\<close>

datatype 'a outcome = Done 'a | Blocked | Panic

definition Submit :: "Collector \<Rightarrow> Result \<Rightarrow> Collector outcome" where
  "Submit c r =
     (case chan_send r (resultChan c) of
        Sent ch \<Rightarrow> Done (c\<lparr>resultChan := ch\<rparr>)
      | SendBlocked \<Rightarrow> Blocked
      | SendPanic \<Rightarrow> Panic)"

definition collect_turn :: "Collector \<Rightarrow> Collector outcome" where
  "collect_turn c =
     (if doneChan_closed c then Blocked
      else case chan_recv (resultChan c) of
        Received r ch \<Rightarrow> Done (collect_body (c\<lparr>resultChan := ch\<rparr>) r)
      | RecvEnd \<Rightarrow> Done (c\<lparr>doneChan_closed := True\<rparr>)
      | RecvBlocked \<Rightarrow> Blocked)"

text \<open>
  \<open>Close\<close> closes the result channel and waits for \<open>doneChan\<close>. From the close on no
  send succeeds, so until \<open>doneChan\<close> is closed only \<open>collect\<close> changes the Collector: it
  folds the outcomes still queued, in order, and leaves its loop.
\<close>

fun collect_rest :: "Result list \<Rightarrow> Collector \<Rightarrow> Collector" where
  "collect_rest [] c = c\<lparr>doneChan_closed := True\<rparr>"
| "collect_rest (r # rs) c =
     collect_rest rs (collect_body (c\<lparr>resultChan := (resultChan c)\<lparr>chan_buf := rs\<rparr>\<rparr>) r)"

definition Close :: "Collector \<Rightarrow> int \<Rightarrow> Collector outcome" where
  "Close c now =
     (case chan_close (resultChan c) of
        None \<Rightarrow> Panic
      | Some ch \<Rightarrow>
          (let c1 = collect_rest (chan_buf ch) (c\<lparr>resultChan := ch\<rparr>)
           in Done (c1\<lparr>summary := (summary c1)\<lparr>EndTime := now,
                     Summary_Duration := now - StartTime (summary c1)\<rparr>\<rparr>)))"

definition GetSummary :: "Collector \<Rightarrow> Summary" where
  "GetSummary c = summary c"

definition GetResults :: "Collector \<Rightarrow> Result list" where
  "GetResults c = results c"

text \<open>
  \<open>WriteResults\<close> sorts \<open>c.results\<close> in place with \<open>sort.Slice\<close> and the comparison
  below, then writes in the configured format. \<open>sort.Slice\<close> is modelled by insertion
  sort; it leaves the order of outcomes with equal IP and port open, and nothing below
  depends on that order. Strings compare bytewise, as in Go.
\<close>

definition result_less :: "Result \<Rightarrow> Result \<Rightarrow> bool" where
  "result_less a b = (if IP a \<noteq> IP b then IP a < IP b else Port a < Port b)"

fun insert_by :: "('a \<Rightarrow> 'a \<Rightarrow> bool) \<Rightarrow> 'a \<Rightarrow> 'a list \<Rightarrow> 'a list" where
  "insert_by lt x [] = [x]"
| "insert_by lt x (y # ys) =
     (if lt y x then y # insert_by lt x ys else x # y # ys)"

definition sort_Slice :: "('a \<Rightarrow> 'a \<Rightarrow> bool) \<Rightarrow> 'a list \<Rightarrow> 'a list" where
  "sort_Slice lt xs = foldr (insert_by lt) xs []"

definition writeJSON :: "Collector \<Rightarrow> Collector" where
  "writeJSON c = c\<lparr>writer := writer c @ [JSONDocument (summary c) (results c)]\<rparr>"

definition writeCSV :: "Collector \<Rightarrow> Collector" where
  "writeCSV c = c\<lparr>writer := writer c @ CSVHeader # map CSVRecord (results c)\<rparr>"

definition writeText :: "Collector \<Rightarrow> Collector" where
  "writeText c =
     (if verbose c then c
      else c\<lparr>writer := writer c @
             map (\<lambda>r. TextLine (IP r) (Port r) (Status r))
               (filter (\<lambda>r. Status r = StatusOpen) (results c))\<rparr>)"

datatype write_error = UnsupportedFormat string | WriterFailed

text \<open>
  The writes themselves can fail in \<open>writeJSON\<close> and \<open>writeCSV\<close> (an error of the
  underlying file); \<open>io_ok\<close> says whether they succeed.
\<close>

definition WriteResults :: "bool \<Rightarrow> Collector \<Rightarrow> write_error option \<times> Collector" where
  "WriteResults io_ok c =
     (let c1 = c\<lparr>results := sort_Slice result_less (results c)\<rparr>
      in if format c1 = ''json'' then (if io_ok then (None, writeJSON c1) else (Some WriterFailed, c1))
         else if format c1 = ''csv'' then (if io_ok then (None, writeCSV c1) else (Some WriterFailed, c1))
         else if format c1 = ''text'' then (None, writeText c1)
         else (Some (UnsupportedFormat (format c1)), c1))"

text \<open>
  The Collector under concurrent submitters: an interleaving is a sequence of events,
  each the completion of one \<open>Submit\<close> by some submitter or one turn of \<open>collect\<close>.
  \<open>run\<close> is \<open>None\<close> when an event of the sequence cannot happen in the state reached
  (a send on the full channel, a receive on the empty one).
\<close>

datatype event = EvSubmit Result | EvCollect

fun exec :: "event \<Rightarrow> Collector \<Rightarrow> Collector option" where
  "exec (EvSubmit r) c = (case Submit c r of Done c' \<Rightarrow> Some c' | _ \<Rightarrow> None)"
| "exec EvCollect c = (case collect_turn c of Done c' \<Rightarrow> Some c' | _ \<Rightarrow> None)"

fun run :: "event list \<Rightarrow> Collector \<Rightarrow> Collector option" where
  "run [] c = Some c"
| "run (e # es) c = (case exec e c of None \<Rightarrow> None | Some c' \<Rightarrow> run es c')"

fun submitted :: "event list \<Rightarrow> Result list" where
  "submitted [] = []"
| "submitted (EvSubmit r # es) = r # submitted es"
| "submitted (EvCollect # es) = submitted es"

definition counters_sum :: "Summary \<Rightarrow> int" where
  "counters_sum s = OpenPorts s + ClosedPorts s + Filtered s + Errors s"

text \<open>
  The accounting invariant of the Collector: \<open>TotalScanned\<close> counts the folded outcomes,
  and the four status counters count those of them whose status is one of the four
  constants.
\<close>

definition known_count :: "Result list \<Rightarrow> nat" where
  "known_count rs = length (filter (\<lambda>r. known_status (Status r)) rs)"

definition accounted :: "Collector \<Rightarrow> bool" where
  "accounted c \<longleftrightarrow>
     TotalScanned (summary c) = int (length (results c)) \<and>
     counters_sum (summary c) = int (known_count (results c))"

section \<open>Package worker: the probe\<close>

record Task =
  Task_IP :: string
  Task_Port :: int

text \<open>
  What \<open>net.DialTimeout\<close> returned: a connection, or an error. Of the error the probe
  reads whether it implements \<open>net.Error\<close>, what its \<open>Timeout()\<close> says, and its text.
\<close>

record dial_error =
  is_net_Error :: bool
  Timeout :: bool
  Error_text :: string

datatype dial_result = Connected | DialFailed dial_error

text \<open>
  \<open>scan\<close>: the outcome built for a task, from the start time, the time the dial took
  and what the dial returned; \<open>Worker_scan\<close> then sends it on the result channel.
\<close>

definition scan :: "Task \<Rightarrow> int \<Rightarrow> int \<Rightarrow> dial_result \<Rightarrow> Result" where
  "scan task startTime elapsed dial =
     (let r = \<lparr>IP = Task_IP task, Port = Task_Port task, Status = [],
               Timestamp = startTime, Duration = 0, Error = []\<rparr>;
          r = r\<lparr>Duration := elapsed\<rparr>
      in case dial of
           DialFailed err \<Rightarrow>
             (if is_net_Error err \<and> Timeout err then r\<lparr>Status := StatusFiltered\<rparr>
              else r\<lparr>Status := StatusClosed\<rparr>)\<lparr>Error := Error_text err\<rparr>
         | Connected \<Rightarrow> r\<lparr>Status := StatusOpen\<rparr>)"

definition Worker_scan ::
  "Task \<Rightarrow> int \<Rightarrow> int \<Rightarrow> dial_result \<Rightarrow> Result chan \<Rightarrow> Result send_result" where
  "Worker_scan task startTime elapsed dial ch = chan_send (scan task startTime elapsed dial) ch"


section \<open>Package scanner: task generation, cancellation and the end of Scan\<close>

text \<open>
  \<open>ctx.Err()\<close> of the cancelled context is \<open>context.Canceled\<close>; the other error
  \<open>Scan\<close> can return wraps the error of \<open>WriteResults\<close>.
\<close>

datatype scan_error = Canceled | WriteResultsFailed write_error

















section \<open>Package parser: CIDR targets\<close>

subsection \<open>Addresses and networks of Go's package net\<close>

text \<open>
  A \<open>net.IP\<close> is a byte slice of length 4 or 16 (\<open>nil\<close> is the empty list), an
  \<open>IPMask\<close> likewise; an \<open>IPNet\<close> holds the network's address and its mask.
\<close>

type_synonym ipaddr = "8 word list"

record IPNet =
  net_IP :: ipaddr
  net_Mask :: ipaddr

definition v4InV6Prefix :: ipaddr where
  "v4InV6Prefix = [0, 0, 0, 0, 0, 0, 0, 0, 0, 0, 0xff, 0xff]"

text \<open>\<open>net.CIDRMask ones bits\<close>: \<open>ones\<close> one-bits, then zeros, in \<open>bits / 8\<close> bytes.\<close>

fun CIDRMask_bytes :: "nat \<Rightarrow> nat \<Rightarrow> ipaddr" where
  "CIDRMask_bytes 0 n = []"
| "CIDRMask_bytes (Suc l) n =
     (if n \<ge> 8 then 0xff # CIDRMask_bytes l (n - 8)
      else NOT (drop_bit n (0xff :: 8 word)) # CIDRMask_bytes l 0)"

definition CIDRMask :: "nat \<Rightarrow> nat \<Rightarrow> ipaddr" where
  "CIDRMask ones bits =
     (if bits \<noteq> 32 \<and> bits \<noteq> 128 then []
      else if ones > bits then []
      else CIDRMask_bytes (bits div 8) ones)"

text \<open>\<open>ip.To4()\<close>: the 4-byte form of an IPv4 address, \<open>nil\<close> for any other address.\<close>

definition To4 :: "ipaddr \<Rightarrow> ipaddr" where
  "To4 ip =
     (if length ip = 4 then ip
      else if length ip = 16 \<and> list_all (\<lambda>b. b = 0) (take 10 ip)
              \<and> ip ! 10 = 0xff \<and> ip ! 11 = 0xff
      then drop 12 ip
      else [])"

text \<open>\<open>ip.Mask(mask)\<close>: the bytewise conjunction, after the two lengths are reconciled.\<close>

definition Mask :: "ipaddr \<Rightarrow> ipaddr \<Rightarrow> ipaddr" where
  "Mask ip msk =
     (let mask1 = (if length msk = 16 \<and> length ip = 4 \<and> list_all (\<lambda>b. b = 0xff) (take 12 msk)
                   then drop 12 msk else msk);
          ip1 = (if length mask1 = 4 \<and> length ip = 16 \<and> take 12 ip = v4InV6Prefix
                 then drop 12 ip else ip)
      in if length ip1 \<noteq> length mask1 then []
         else map2 (\<lambda>a b. a AND b) ip1 mask1)"

definition networkNumberAndMask :: "IPNet \<Rightarrow> ipaddr \<times> ipaddr" where
  "networkNumberAndMask n =
     (let ip4 = To4 (net_IP n);
          ip = (if ip4 = [] then net_IP n else ip4);
          m = net_Mask n
      in if ip4 = [] \<and> length ip \<noteq> 16 then ([], [])
         else if length m = 4 then (if length ip \<noteq> 4 then ([], []) else (ip, m))
         else if length m = 16 then (if length ip = 4 then (ip, drop 12 m) else (ip, m))
         else ([], []))"

text \<open>\<open>ipNet.Contains(ip)\<close>.\<close>

definition Contains :: "IPNet \<Rightarrow> ipaddr \<Rightarrow> bool" where
  "Contains n ip0 =
     (case networkNumberAndMask n of
        (nn, m) \<Rightarrow>
          (let x = To4 ip0; ip = (if x \<noteq> [] then x else ip0)
           in if length ip \<noteq> length nn then False
              else map2 (\<lambda>a b. a AND b) nn m = map2 (\<lambda>a b. a AND b) ip m))"

text \<open>
  What \<open>net.ParseCIDR\<close> returns for the text \<open>a.b.c.d/n\<close> of an IPv4 block: the address
  in its 16-byte form, and the network with its 4-byte address and mask. The reading of
  the text itself is not modelled, and for \<open>n > 32\<close> the text is refused.
\<close>

datatype cidr_error = ParseError

definition ParseCIDR_IPv4 ::
  "8 word \<Rightarrow> 8 word \<Rightarrow> 8 word \<Rightarrow> 8 word \<Rightarrow> nat \<Rightarrow> cidr_error + ipaddr \<times> IPNet" where
  "ParseCIDR_IPv4 a b c d n =
     (if n > 32 then Inl ParseError
      else (let m = CIDRMask n 32; ip = v4InV6Prefix @ [a, b, c, d]
            in Inr (ip, \<lparr>net_IP = Mask ip m, net_Mask = m\<rparr>)))"

subsection \<open>incrementIP and parseCIDR\<close>

text \<open>
  \<open>incrementIP\<close>: the loop runs \<open>j\<close> from the last index down to 0, adds one to byte
  \<open>j\<close> (a byte wraps from 255 to 0) and stops at the first byte that did not wrap.
  \<open>incrementIP_from (Suc j)\<close> is the loop at index \<open>j\<close>.
\<close>

fun incrementIP_from :: "nat \<Rightarrow> ipaddr \<Rightarrow> ipaddr" where
  "incrementIP_from 0 ip = ip"
| "incrementIP_from (Suc j) ip =
     (let ip' = ip[j := ip ! j + 1]
      in if ip' ! j > 0 then ip' else incrementIP_from j ip')"

definition incrementIP :: "ipaddr \<Rightarrow> ipaddr" where
  "incrementIP ip = incrementIP_from (length ip) ip"

text \<open>
  The loop of \<open>parseCIDR\<close>,
  \<open>for ip := ip.Mask(ipNet.Mask); ipNet.Contains(ip); incrementIP(ip)\<close>: it may run
  forever, and then the function has no value. The addresses are kept as bytes here;
  the Go code appends \<open>ip.String()\<close>, the text of the address.
\<close>

partial_function (option) parseCIDR_loop ::
  "IPNet \<Rightarrow> ipaddr \<Rightarrow> ipaddr list \<Rightarrow> ipaddr list option" where
  "parseCIDR_loop ipNet ip ips =
     (if Contains ipNet ip then parseCIDR_loop ipNet (incrementIP ip) (ips @ [ip])
      else Some ips)"

text \<open>
  \<open>parseCIDR\<close>, given what \<open>net.ParseCIDR\<close> returned for its argument; \<open>None\<close> when
  the loop does not end.
\<close>

definition parseCIDR :: "cidr_error + ipaddr \<times> IPNet \<Rightarrow> (cidr_error + ipaddr list) option" where
  "parseCIDR parsed =
     (case parsed of
        Inl err \<Rightarrow> Some (Inl err)
      | Inr (ip, ipNet) \<Rightarrow>
          (case parseCIDR_loop ipNet (Mask ip (net_Mask ipNet)) [] of
             None \<Rightarrow> None
           | Some ips \<Rightarrow>
               Some (Inr (if length ips > 2 then take (length ips - 2) (drop 1 ips) else ips))))"

section \<open>Package scanner: Scan and its goroutines\<close>

text \<open>
  The goroutines that run during \<open>Scan\<close> and where each of them stands: the workers
  (\<open>Worker.Start\<close>: at the \<open>select\<close> of the loop, or inside \<open>scan\<close> with a task),
  \<open>collectResults\<close> (at the receive of its \<open>range\<close> loop, or inside
  \<open>collector.Submit\<close> with an outcome), the Collector's \<open>collect\<close>, and \<open>Scan\<close> itself.
  A send on a closed channel panics. The scanner modelled here has no rate limiter and no
  progress reporter (\<open>RateLimit = 0\<close>, \<open>Verbose = false\<close>), so between
  \<open>s.pool.Close()\<close> and \<open>close(s.resultChan)\<close> \<open>Scan\<close> waits for nothing.
\<close>

datatype worker_state = WSelect | WScan Task | WReturned | WPanic Result

datatype forwarder_state = FRange | FSubmit Result | FReturned | FPanic Result

datatype main_state =
    MGenerate "Task list"
  | MPoolClose "scan_error option"
  | MCloseResults "scan_error option"
  | MCollectorClose "scan_error option"
  | MWaitDone "scan_error option"
  | MWriteResults "scan_error option"
  | MReturned "scan_error option"

record scanner =
  ctx_done :: bool
  taskChan :: "Task chan"
  scan_resultChan :: "Result chan"
  collector :: Collector
  workers :: "worker_state list"
  collectResults :: forwarder_state
  main_at :: main_state

text \<open>The tasks in the order of the two loops of \<open>generateTasks\<close>: host by host.\<close>

definition all_tasks :: "string list \<Rightarrow> int list \<Rightarrow> Task list" where
  "all_tasks targets ports =
     concat (map (\<lambda>target. map (\<lambda>port. \<lparr>Task_IP = target, Task_Port = port\<rparr>) ports) targets)"

text \<open>
  The state when \<open>Scan\<close> has started the pool of \<open>n\<close> workers and \<open>collectResults\<close>
  and is about to generate the tasks. \<open>NewPool\<close> gives the task channel room for ten
  tasks per worker, at most 10000; the result channel holds 1000 outcomes.
\<close>

definition Scan_started :: "nat \<Rightarrow> string \<Rightarrow> string list \<Rightarrow> int list \<Rightarrow> scanner" where
  "Scan_started n fmt targets ports =
     \<lparr>ctx_done = False,
      taskChan = make_chan (if n * 10 > 10000 then 10000 else n * 10),
      scan_resultChan = make_chan 1000,
      collector = NewCollector fmt False 0,
      workers = replicate n WSelect,
      collectResults = FRange,
      main_at = MGenerate (all_tasks targets ports)\<rparr>"

fun is_WPanic :: "worker_state \<Rightarrow> bool" where
  "is_WPanic (WPanic r) = True"
| "is_WPanic w = False"

fun is_FPanic :: "forwarder_state \<Rightarrow> bool" where
  "is_FPanic (FPanic r) = True"
| "is_FPanic f = False"

text \<open>A panic in any goroutine ends the process.\<close>

definition crashed :: "scanner \<Rightarrow> bool" where
  "crashed s = (list_ex is_WPanic (workers s) \<or> is_FPanic (collectResults s))"

text \<open>
  One step of \<open>Scan\<close>. While generating, a step is one iteration of \<open>generateTasks\<close>:
  the check of the context and \<open>pool.Submit\<close>, which blocks while the task channel is
  full. Then \<open>s.pool.Close()\<close>, \<open>close(s.resultChan)\<close>, the two halves of
  \<open>collector.Close()\<close> (closing the Collector's channel, waiting for \<open>doneChan\<close>) and
  \<open>WriteResults\<close>. \<open>None\<close>: the step cannot be taken now.
\<close>

definition main_step :: "int \<Rightarrow> bool \<Rightarrow> scanner \<Rightarrow> scanner option" where
  "main_step now io_ok s =
     (case main_at s of
        MGenerate [] \<Rightarrow> Some (s\<lparr>main_at := MPoolClose None\<rparr>)
      | MGenerate (task # tasks) \<Rightarrow>
          (if ctx_done s then Some (s\<lparr>main_at := MPoolClose (Some Canceled)\<rparr>)
           else case chan_send task (taskChan s) of
                  Sent ch \<Rightarrow> Some (s\<lparr>taskChan := ch, main_at := MGenerate tasks\<rparr>)
                | SendBlocked \<Rightarrow> None
                | SendPanic \<Rightarrow> None)
      | MPoolClose err \<Rightarrow>
          (case chan_close (taskChan s) of
             None \<Rightarrow> None
           | Some ch \<Rightarrow> Some (s\<lparr>taskChan := ch, main_at := MCloseResults err\<rparr>))
      | MCloseResults err \<Rightarrow>
          (case chan_close (scan_resultChan s) of
             None \<Rightarrow> None
           | Some ch \<Rightarrow> Some (s\<lparr>scan_resultChan := ch, main_at := MCollectorClose err\<rparr>))
      | MCollectorClose err \<Rightarrow>
          (case chan_close (resultChan (collector s)) of
             None \<Rightarrow> None
           | Some ch \<Rightarrow>
               Some (s\<lparr>collector := (collector s)\<lparr>resultChan := ch\<rparr>, main_at := MWaitDone err\<rparr>))
      | MWaitDone err \<Rightarrow>
          (if doneChan_closed (collector s)
           then Some (s\<lparr>collector := (collector s)\<lparr>summary := (summary (collector s))
                         \<lparr>EndTime := now,
                          Summary_Duration := now - StartTime (summary (collector s))\<rparr>\<rparr>,
                       main_at := MWriteResults err\<rparr>)
           else None)
      | MWriteResults err \<Rightarrow>
          (case WriteResults io_ok (collector s) of
             (Some werr, c) \<Rightarrow>
               Some (s\<lparr>collector := c, main_at := MReturned (Some (WriteResultsFailed werr))\<rparr>)
           | (None, c) \<Rightarrow> Some (s\<lparr>collector := c, main_at := MReturned err\<rparr>))
      | MReturned err \<Rightarrow> None)"

text \<open>
  One step of worker \<open>i\<close>. At the \<open>select\<close> it returns on the cancelled context or on
  the closed and empty task channel, or takes a task (\<open>pick\<close> is Go's choice when both
  the cancellation and a task are ready); inside \<open>scan\<close> it dials (\<open>dial\<close> tells what
  the dial of a task returns) and sends the outcome on the result channel.
\<close>

definition worker_step :: "(Task \<Rightarrow> dial_result) \<Rightarrow> nat \<Rightarrow> bool \<Rightarrow> scanner \<Rightarrow> scanner option" where
  "worker_step dial i pick s =
     (if i \<ge> length (workers s) then None
      else case workers s ! i of
        WSelect \<Rightarrow>
          (case chan_recv (taskChan s) of
             RecvBlocked \<Rightarrow>
               if ctx_done s then Some (s\<lparr>workers := (workers s)[i := WReturned]\<rparr>) else None
           | RecvEnd \<Rightarrow> Some (s\<lparr>workers := (workers s)[i := WReturned]\<rparr>)
           | Received task ch \<Rightarrow>
               if ctx_done s \<and> pick then Some (s\<lparr>workers := (workers s)[i := WReturned]\<rparr>)
               else Some (s\<lparr>taskChan := ch, workers := (workers s)[i := WScan task]\<rparr>))
      | WScan task \<Rightarrow>
          (case Worker_scan task 0 0 (dial task) (scan_resultChan s) of
             Sent ch \<Rightarrow> Some (s\<lparr>scan_resultChan := ch, workers := (workers s)[i := WSelect]\<rparr>)
           | SendBlocked \<Rightarrow> None
           | SendPanic \<Rightarrow>
               Some (s\<lparr>workers := (workers s)[i := WPanic (scan task 0 0 (dial task))]\<rparr>))
      | WReturned \<Rightarrow> None
      | WPanic r \<Rightarrow> None)"

text \<open>One step of \<open>collectResults\<close>: \<open>for r := range s.resultChan { s.collector.Submit(r) }\<close>.\<close>

definition collectResults_step :: "scanner \<Rightarrow> scanner option" where
  "collectResults_step s =
     (case collectResults s of
        FRange \<Rightarrow>
          (case chan_recv (scan_resultChan s) of
             Received r ch \<Rightarrow> Some (s\<lparr>scan_resultChan := ch, collectResults := FSubmit r\<rparr>)
           | RecvEnd \<Rightarrow> Some (s\<lparr>collectResults := FReturned\<rparr>)
           | RecvBlocked \<Rightarrow> None)
      | FSubmit r \<Rightarrow>
          (case Submit (collector s) r of
             Done c \<Rightarrow> Some (s\<lparr>collector := c, collectResults := FRange\<rparr>)
           | Blocked \<Rightarrow> None
           | Panic \<Rightarrow> Some (s\<lparr>collectResults := FPanic r\<rparr>))
      | FReturned \<Rightarrow> None
      | FPanic r \<Rightarrow> None)"

definition collect_step :: "scanner \<Rightarrow> scanner option" where
  "collect_step s =
     (case collect_turn (collector s) of
        Done c \<Rightarrow> Some (s\<lparr>collector := c\<rparr>)
      | Blocked \<Rightarrow> None
      | Panic \<Rightarrow> None)"

text \<open>
  Who moves: the signal handler cancelling the context, \<open>Scan\<close>, a worker,
  \<open>collectResults\<close>, or \<open>collect\<close>. A course of the scan is a sequence of such moves,
  each possible where it is made.
\<close>

datatype actor = Cancel | Main | Worker nat bool | CollectResults | Collect

definition step :: "(Task \<Rightarrow> dial_result) \<Rightarrow> int \<Rightarrow> bool \<Rightarrow> actor \<Rightarrow> scanner \<Rightarrow> scanner option" where
  "step dial now io_ok a s =
     (if crashed s then None
      else case a of
        Cancel \<Rightarrow> Some (s\<lparr>ctx_done := True\<rparr>)
      | Main \<Rightarrow> main_step now io_ok s
      | Worker i pick \<Rightarrow> worker_step dial i pick s
      | CollectResults \<Rightarrow> collectResults_step s
      | Collect \<Rightarrow> collect_step s)"

fun course :: "(Task \<Rightarrow> dial_result) \<Rightarrow> int \<Rightarrow> bool \<Rightarrow> actor list \<Rightarrow> scanner \<Rightarrow> scanner option" where
  "course dial now io_ok [] s = Some s"
| "course dial now io_ok (a # as) s =
     (case step dial now io_ok a s of None \<Rightarrow> None | Some s' \<Rightarrow> course dial now io_ok as s')"

text \<open>A host on which every port accepts the connection.\<close>

definition listening :: "Task \<Rightarrow> dial_result" where
  "listening task = Connected"


chapter \<open>Properties\<close>

section \<open>Port specifications: validation and fail-fast\<close>

lemma validated_range_small:
  "validatePort s = None \<Longrightarrow> validatePort e = None \<Longrightarrow> e - s \<le> 65534"
  by (auto simp: validatePort_def split: if_splits)

lemma parsePortRange_error_kind: "parsePortRange r = Inl e \<Longrightarrow> is_InvalidPort e"
  unfolding parsePortRange_def
  by (auto split: list.splits sum.splits option.splits if_splits
           dest: validated_range_small)

lemma parsePortRange_Inr_valid:
  "CHR ''-'' \<in> set r \<Longrightarrow> parsePortRange r = Inr ps \<Longrightarrow> valid_token r"
  unfolding parsePortRange_def valid_token_def
  by (auto split: list.splits sum.splits option.splits if_splits simp: validatePort_def port_ok_def)

lemma parsePortRange_valid_Inr:
  "valid_token r \<Longrightarrow> CHR ''-'' \<in> set r \<Longrightarrow> \<exists>ps. parsePortRange r = Inr ps"
  unfolding parsePortRange_def valid_token_def
  by (auto split: list.splits sum.splits simp: validatePort_def port_ok_def)

lemma loop_skip_ok:
  assumes "part_ok u"
  shows "\<exists>ports' seen'. ParsePorts_loop (u # parts) ports seen = ParsePorts_loop parts ports' seen'"
proof (cases "TrimSpace u = []")
  case True
  then show ?thesis by auto
next
  case ne: False
  with assms have v: "valid_token (TrimSpace u)" by (simp add: part_ok_def)
  show ?thesis
  proof (cases "CHR ''-'' \<in> set (TrimSpace u)")
    case True
    with v obtain ps where ps: "parsePortRange (TrimSpace u) = Inr ps"
      using parsePortRange_valid_Inr by blast
    obtain ports' seen' where "add_ports ps ports seen = (ports', seen')"
      by (cases "add_ports ps ports seen") auto
    with ne True ps have "ParsePorts_loop (u # parts) ports seen = ParsePorts_loop parts ports' seen'"
      by (simp add: Contains_char_def)
    then show ?thesis by blast
  next
    case False
    with v obtain p where p: "Atoi (TrimSpace u) = Inr p" "port_ok p"
      by (auto simp: valid_token_def split: sum.splits)
    then have vp: "validatePort p = None" by (auto simp: validatePort_def port_ok_def)
    show ?thesis
    proof (cases "seen p")
      case True
      with ne False p vp have "ParsePorts_loop (u # parts) ports seen = ParsePorts_loop parts ports seen"
        by (simp add: Contains_char_def)
      then show ?thesis by blast
    next
      case nseen: False
      with ne False p vp have "ParsePorts_loop (u # parts) ports seen
          = ParsePorts_loop parts (ports @ [p]) (seen(p := True))"
        by (simp add: Contains_char_def)
      then show ?thesis by blast
    qed
  qed
qed

lemma loop_abort_invalid:
  "part_invalid t \<Longrightarrow> \<exists>e. is_InvalidPort e \<and> (\<forall>parts ports seen. ParsePorts_loop (t # parts) ports seen = Inl e)"
proof -
  assume inv: "part_invalid t"
  let ?p = "TrimSpace t"
  from inv have ne: "?p \<noteq> []" and nv: "\<not> valid_token ?p" by (auto simp: part_invalid_def)
  show ?thesis
  proof (cases "CHR ''-'' \<in> set ?p")
    case True
    with nv obtain e where e: "parsePortRange ?p = Inl e"
      using parsePortRange_Inr_valid by (cases "parsePortRange ?p") auto
    then have "is_InvalidPort e" by (rule parsePortRange_error_kind)
    moreover have "\<forall>parts ports seen. ParsePorts_loop (t # parts) ports seen = Inl e"
      using ne True e by (simp add: Contains_char_def)
    ultimately show ?thesis by blast
  next
    case False
    show ?thesis
    proof (cases "Atoi ?p")
      case (Inl err)
      then have "\<forall>parts ports seen. ParsePorts_loop (t # parts) ports seen = Inl (InvalidPort ?p)"
        using ne False by (simp add: Contains_char_def)
      then show ?thesis by (intro exI[of _ "InvalidPort ?p"]) simp
    next
      case (Inr port)
      with nv False have "\<not> port_ok port" by (simp add: valid_token_def)
      then have "validatePort port = Some (PortOutOfRange port)"
        by (auto simp: validatePort_def port_ok_def)
      then have "\<forall>parts ports seen. ParsePorts_loop (t # parts) ports seen = Inl (PortOutOfRange port)"
        using ne False Inr by (simp add: Contains_char_def)
      then show ?thesis by (intro exI[of _ "PortOutOfRange port"]) simp
    qed
  qed
qed

lemma loop_abort_first_invalid:
  assumes "\<forall>u\<in>set pre. part_ok u" and "part_invalid t"
  shows "\<exists>e. is_InvalidPort e \<and> ParsePorts_loop (pre @ t # post) ports seen = Inl e
           \<and> ParsePorts_loop [t] [] (\<lambda>p. False) = Inl e"
  using assms(1)
proof (induction pre arbitrary: ports seen)
  case Nil
  from loop_abort_invalid[OF assms(2)] show ?case by auto
next
  case (Cons u pre)
  then have "part_ok u" by simp
  from loop_skip_ok[OF this] obtain ports' seen' where
    "ParsePorts_loop (u # (pre @ t # post)) ports seen = ParsePorts_loop (pre @ t # post) ports' seen'"
    by blast
  with Cons show ?case by auto
qed

lemma InvalidPort_not_too_large: "is_InvalidPort e \<Longrightarrow> \<not> is_RangeTooLarge e"
  by (cases e) auto

lemma ParsePorts_loop_not_too_large:
  "ParsePorts_loop parts ports seen = Inl e \<Longrightarrow> \<not> is_RangeTooLarge e"
proof (induction parts arbitrary: ports seen)
  case Nil
  then show ?case by simp
next
  case (Cons part0 parts)
  show ?case
  proof (cases "TrimSpace part0 = []")
    case True
    with Cons show ?thesis by simp
  next
    case ne: False
    show ?thesis
    proof (cases "Contains_char (TrimSpace part0) (CHR ''-'')")
      case True
      show ?thesis
      proof (cases "parsePortRange (TrimSpace part0)")
        case (Inl err)
        with ne True Cons.prems have "e = err" by simp
        with Inl show ?thesis
          using parsePortRange_error_kind InvalidPort_not_too_large by blast
      next
        case (Inr rangePorts)
        with ne True Cons.prems Cons.IH show ?thesis
          by (auto split: prod.splits)
      qed
    next
      case False
      with ne Cons.prems Cons.IH show ?thesis
        by (auto simp: Let_def validatePort_def split: sum.splits option.splits if_splits)
    qed
  qed
qed

text \<open>
  Claim C9. For every input string, port expansion never returns the range-too-large
  error: \<open>parsePortRange\<close> validates both endpoints to lie in 1..65535 before the size
  check, so \<open>end - start\<close> is at most 65534 and the branch guarded by
  \<open>end - start > 65535\<close> is never taken, neither in \<open>parsePortRange\<close> nor in
  \<open>ParsePorts\<close>.
\<close>

theorem ParsePorts_never_RangeTooLarge: 
  "(\<forall>n. ParsePorts portSpec \<noteq> Inl (RangeTooLarge n)) \<and>
   (\<forall>n. parsePortRange rangeSpec \<noteq> Inl (RangeTooLarge n)) \<and>
   (validatePort start = None \<and> validatePort end' = None \<longrightarrow>
      end' - start \<le> 65534 \<and> \<not> end' - start > 65535)"
proof (intro conjI allI impI)
  fix n
  show "ParsePorts portSpec \<noteq> Inl (RangeTooLarge n)"
  proof
    assume a: "ParsePorts portSpec = Inl (RangeTooLarge n)"
    then have "ParsePorts_loop (Split portSpec (CHR '','')) [] (\<lambda>p. False) = Inl (RangeTooLarge n)"
      by (auto simp: ParsePorts_def split: sum.splits if_splits)
    from ParsePorts_loop_not_too_large[OF this] show False by simp
  qed
next
  fix n
  show "parsePortRange rangeSpec \<noteq> Inl (RangeTooLarge n)"
    using parsePortRange_error_kind[of rangeSpec "RangeTooLarge n"] by auto
next
  assume "validatePort start = None \<and> validatePort end' = None"
  then show "end' - start \<le> 65534" using validated_range_small by blast
next
  assume "validatePort start = None \<and> validatePort end' = None"
  then have "end' - start \<le> 65534" using validated_range_small by blast
  then show "\<not> end' - start > 65535" by simp
qed

theorem ParsePorts_never_RangeTooLarge_witness:
  "validatePort 1 = None \<and> validatePort 65535 = None \<and> (65535::int) - 1 \<le> 65534 \<and>
   (\<forall>n. ParsePorts ''1-65535'' \<noteq> Inl (RangeTooLarge n)) \<and>
   (\<forall>n. parsePortRange ''1-65535'' \<noteq> Inl (RangeTooLarge n))"
  using ParsePorts_never_RangeTooLarge [of "''1-65535''" "''1-65535''" 1 65535]
  by (simp add: validatePort_def)

lemma ParsePorts_examples:
  "ParsePorts ''0'' = Inl (PortOutOfRange 0)"
  "ParsePorts ''70000'' = Inl (PortOutOfRange 70000)"
  "ParsePorts ''100-50'' = Inl (StartGreaterThanEnd 100 50)"
  by code_simp+

text \<open>
  Claim C7. \<open>ParsePorts\<close> fails with an invalid-port error on \<open>0\<close>, on \<open>70000\<close>
  (both out of 1..65535) and on \<open>100-50\<close> (start greater than end). For every port
  specification whose comma-separated parts hold an invalid token, with every part before
  it empty or valid, \<open>ParsePorts\<close> returns no ports but the invalid-port error of that
  first invalid token (the error the loop gives on the token alone): it aborts there
  rather than skipping the token and continuing.
\<close>

theorem ParsePorts_fails_fast:
  "ParsePorts ''0'' = Inl (PortOutOfRange 0) \<and> is_InvalidPort (PortOutOfRange 0) \<and>
   ParsePorts ''70000'' = Inl (PortOutOfRange 70000) \<and> is_InvalidPort (PortOutOfRange 70000) \<and>
   ParsePorts ''100-50'' = Inl (StartGreaterThanEnd 100 50) \<and>
   is_InvalidPort (StartGreaterThanEnd 100 50) \<and>
   (Split portSpec (CHR '','') = pre @ t # post \<and> (\<forall>u\<in>set pre. part_ok u) \<and> part_invalid t
     \<longrightarrow> (\<exists>e. ParsePorts portSpec = Inl e \<and> is_InvalidPort e \<and>
              ParsePorts_loop [t] [] (\<lambda>p. False) = Inl e))"
proof -
  have "\<exists>e. ParsePorts portSpec = Inl e \<and> is_InvalidPort e \<and>
              ParsePorts_loop [t] [] (\<lambda>p. False) = Inl e"
    if sp: "Split portSpec (CHR '','') = pre @ t # post"
      and ok: "\<forall>u\<in>set pre. part_ok u" and bad: "part_invalid t"
  proof -
    from loop_abort_first_invalid[OF ok bad, of post "[]" "\<lambda>p. False"]
    obtain e where "is_InvalidPort e"
      "ParsePorts_loop (pre @ t # post) [] (\<lambda>p. False) = Inl e"
      "ParsePorts_loop [t] [] (\<lambda>p. False) = Inl e" by blast
    then show ?thesis by (auto simp: ParsePorts_def sp)
  qed
  then show ?thesis by (simp add: ParsePorts_examples)
qed

theorem ParsePorts_fails_fast_witness:
  "Split ''80,0,443'' (CHR '','') = [''80''] @ ''0'' # [''443''] \<and>
   part_ok ''80'' \<and> part_invalid ''0'' \<and>
   ParsePorts ''80,0,443'' = Inl (PortOutOfRange 0) \<and>
   ParsePorts_loop [''0''] [] (\<lambda>p. False) = Inl (PortOutOfRange 0)"
proof -
  have sp: "Split ''80,0,443'' (CHR '','') = [''80''] @ ''0'' # [''443'']" by code_simp
  have ok: "\<forall>u\<in>set [''80'']. part_ok u" by (simp, code_simp)
  have ok': "part_ok ''80''" by code_simp
  have bad: "part_invalid ''0''" by code_simp
  have ev: "ParsePorts ''80,0,443'' = Inl (PortOutOfRange 0)" by code_simp
  have ev1: "ParsePorts_loop [''0''] [] (\<lambda>p. False) = Inl (PortOutOfRange 0)" by code_simp
  from ParsePorts_fails_fast [of "''80,0,443''" "[''80'']" "''0''" "[''443'']"] sp ok bad
  have "\<exists>e. ParsePorts ''80,0,443'' = Inl e \<and> is_InvalidPort e \<and>
              ParsePorts_loop [''0''] [] (\<lambda>p. False) = Inl e" by blast
  with sp ok' bad ev ev1 show ?thesis by simp
qed

section \<open>The rate limiter's interval\<close>

lemma go_div_pos: "0 < a \<Longrightarrow> 0 < b \<Longrightarrow> go_div a b = a div b"
  by (simp add: go_div_def)

text \<open>
  Claim C10. For every configured rate limit \<open>R > 0\<close> the dispatch interval is the
  integer quotient \<open>floor (10^9 / R)\<close> nanoseconds. Whenever \<open>R\<close> does not divide
  \<open>10^9\<close> the interval is strictly shorter than \<open>10^9 / R\<close> nanoseconds (the pacing is
  faster than one task per \<open>1/R\<close> seconds), and for every \<open>R > 10^9\<close> the interval is
  0, which is not a positive ticker interval.
\<close>

theorem rate_interval_floor:
  "RateLimit > 0 \<Longrightarrow>
     (\<exists>d. rate_interval RateLimit = Some d \<and>
          d = \<lfloor>(1000000000::real) / of_int RateLimit\<rfloor> \<and>
          (\<not> RateLimit dvd 1000000000 \<longrightarrow> of_int d < (1000000000::real) / of_int RateLimit) \<and>
          (RateLimit > 1000000000 \<longrightarrow> d = 0))"
proof -
  assume pos: "RateLimit > 0"
  let ?d = "1000000000 div RateLimit"
  have d: "rate_interval RateLimit = Some ?d"
    using pos by (simp add: rate_interval_def Second_def go_div_pos)
  have fl: "?d = \<lfloor>(1000000000::real) / of_int RateLimit\<rfloor>"
    using floor_divide_of_int_eq[of 1000000000 RateLimit, where ?'a = real] by simp
  have lt: "of_int ?d < (1000000000::real) / of_int RateLimit" if nd: "\<not> RateLimit dvd 1000000000"
  proof -
    have "?d * RateLimit + 1000000000 mod RateLimit = 1000000000" by (rule div_mult_mod_eq)
    moreover have "0 \<le> 1000000000 mod RateLimit" using pos by simp
    moreover have "1000000000 mod RateLimit \<noteq> 0" using nd by (simp add: dvd_eq_mod_eq_0)
    ultimately have "?d * RateLimit < 1000000000" by linarith
    then have "(of_int (?d * RateLimit) :: real) < of_int 1000000000" by (simp only: of_int_less_iff)
    then have "(of_int ?d :: real) * of_int RateLimit < 1000000000" by simp
    then show ?thesis using pos by (simp add: pos_less_divide_eq)
  qed
  have z: "?d = 0" if "RateLimit > 1000000000" using that by (simp add: div_pos_pos_trivial)
  from d fl lt z show ?thesis by blast
qed

theorem rate_interval_floor_witness:
  "(3::int) > 0 \<and> rate_interval 3 = Some 333333333 \<and> \<not> (3::int) dvd 1000000000 \<and>
   (333333333::real) < 1000000000 / 3 \<and> rate_interval 2000000000 = Some 0"
proof -
  have a: "rate_interval 3 = Some 333333333" by (simp add: rate_interval_def Second_def go_div_def)
  have b: "rate_interval 2000000000 = Some 0" by (simp add: rate_interval_def Second_def go_div_def)
  have c: "\<not> (3::int) dvd 1000000000" by simp
  from rate_interval_floor [of 3] a c have "(of_int 333333333 :: real) < 1000000000 / of_int 3" by auto
  then have d: "(333333333::real) < 1000000000 / 3" by simp
  have e: "(3::int) > 0" by simp
  from a b c d e show ?thesis by (intro conjI)
qed

section \<open>The probe: classification of the dial\<close>

lemma status_consts_distinct:
  "StatusOpen \<noteq> StatusClosed" "StatusOpen \<noteq> StatusFiltered" "StatusOpen \<noteq> StatusError"
  "StatusClosed \<noteq> StatusFiltered" "StatusClosed \<noteq> StatusError" "StatusFiltered \<noteq> StatusError"
  by (simp_all add: StatusOpen_def StatusClosed_def StatusFiltered_def StatusError_def)

lemma scan_Connected:
  "scan task t0 el Connected =
     \<lparr>IP = Task_IP task, Port = Task_Port task, Status = StatusOpen,
      Timestamp = t0, Duration = el, Error = []\<rparr>"
  by (simp add: scan_def Let_def)

lemma scan_DialFailed:
  "scan task t0 el (DialFailed e) =
     \<lparr>IP = Task_IP task, Port = Task_Port task,
      Status = (if is_net_Error e \<and> Timeout e then StatusFiltered else StatusClosed),
      Timestamp = t0, Duration = el, Error = Error_text e\<rparr>"
  by (simp add: scan_def Let_def)

lemma scan_status:
  "(Status (scan task t0 el dial) = StatusOpen \<longleftrightarrow> dial = Connected)"
  "(Status (scan task t0 el dial) = StatusFiltered \<longleftrightarrow>
      (\<exists>e. dial = DialFailed e \<and> is_net_Error e \<and> Timeout e))"
  "(Status (scan task t0 el dial) = StatusClosed \<longleftrightarrow>
      (\<exists>e. dial = DialFailed e \<and> \<not> (is_net_Error e \<and> Timeout e)))"
  "Status (scan task t0 el dial) \<noteq> StatusError"
  using status_consts_distinct
  by (cases dial; auto simp: scan_Connected scan_DialFailed)+

lemma scan_fields:
  "IP (scan task t0 el dial) = Task_IP task"
  "Port (scan task t0 el dial) = Task_Port task"
  "Timestamp (scan task t0 el dial) = t0"
  "Duration (scan task t0 el dial) = el"
  by (cases dial; simp add: scan_Connected scan_DialFailed)+

text \<open>
  Claim C2. For every probe of one (host, port) task, \<open>scan\<close> builds exactly one
  outcome for that task and sends it on the result channel (here: a channel that is open
  and has room, so the send completes). Its status is \<open>open\<close> if and only if the
  connection attempt succeeded, \<open>filtered\<close> if and only if it failed with an error that is
  a \<open>net.Error\<close> reporting a timeout, and \<open>closed\<close> if and only if it failed in any
  other way.
\<close>

theorem scan_classifies:
  "\<not> chan_closed ch \<Longrightarrow> length (chan_buf ch) < chan_cap ch \<Longrightarrow>
   (\<exists>r. Worker_scan task t0 el dial ch = Sent (ch\<lparr>chan_buf := chan_buf ch @ [r]\<rparr>) \<and>
        r = scan task t0 el dial \<and>
        IP r = Task_IP task \<and> Port r = Task_Port task \<and>
        (Status r = StatusOpen \<longleftrightarrow> dial = Connected) \<and>
        (Status r = StatusFiltered \<longleftrightarrow>
           (\<exists>e. dial = DialFailed e \<and> is_net_Error e \<and> Timeout e)) \<and>
        (Status r = StatusClosed \<longleftrightarrow>
           (\<exists>e. dial = DialFailed e \<and> \<not> (is_net_Error e \<and> Timeout e))))"
  by (simp add: Worker_scan_def chan_send_def scan_status scan_fields)


theorem scan_classifies_witness:
  "\<not> chan_closed (make_chan 1000 :: Result chan) \<and>
   length (chan_buf (make_chan 1000 :: Result chan)) < chan_cap (make_chan 1000 :: Result chan) \<and>
   Worker_scan \<lparr>Task_IP = ''127.0.0.1'', Task_Port = 80\<rparr> 5 7
      (DialFailed \<lparr>is_net_Error = True, Timeout = True, Error_text = ''i/o timeout''\<rparr>)
      (make_chan 1000)
    = Sent \<lparr>chan_buf = [\<lparr>IP = ''127.0.0.1'', Port = 80, Status = StatusFiltered,
                           Timestamp = 5, Duration = 7, Error = ''i/o timeout''\<rparr>],
            chan_cap = 1000, chan_closed = False\<rparr>"
  using scan_classifies [of "make_chan 1000" "\<lparr>Task_IP = ''127.0.0.1'', Task_Port = 80\<rparr>" 5 7
      "DialFailed \<lparr>is_net_Error = True, Timeout = True, Error_text = ''i/o timeout''\<rparr>"]
  by (simp add: make_chan_def scan_DialFailed)

text \<open>
  Claim C8 says that a probe failing by resource exhaustion (no socket could be created),
  not by a timeout, yields an outcome with the \<open>error\<close> status. The probe gives such a
  failure the status \<open>closed\<close>: for the dial error \<open>socket: too many open files\<close>,
  which is no timeout, the outcome is \<open>closed\<close>, not \<open>error\<close>.
\<close>

theorem scan_exhaustion_not_error_counterexample:
  "\<not> Timeout \<lparr>is_net_Error = True, Timeout = False, Error_text = ''socket: too many open files''\<rparr> \<and>
   Status (scan \<lparr>Task_IP = ''10.0.0.1'', Task_Port = 80\<rparr> 0 1
     (DialFailed \<lparr>is_net_Error = True, Timeout = False,
                  Error_text = ''socket: too many open files''\<rparr>)) = StatusClosed \<and>
   Status (scan \<lparr>Task_IP = ''10.0.0.1'', Task_Port = 80\<rparr> 0 1
     (DialFailed \<lparr>is_net_Error = True, Timeout = False,
                  Error_text = ''socket: too many open files''\<rparr>)) \<noteq> StatusError"
  by (simp add: scan_DialFailed status_consts_distinct)

text \<open>
  Claim C8, amended. The probe never produces the \<open>error\<close> status. Every failure of the
  dial that is not a timeout, resource exhaustion included, gives for that one task an
  outcome with status \<open>closed\<close> and the error's text; \<open>scan\<close> returns that outcome as it
  returns any other, so the failure ends nothing but this probe.
\<close>

theorem scan_failure_closed:
  "Status (scan task t0 el dial) \<noteq> StatusError \<and>
   (dial = DialFailed e \<and> \<not> (is_net_Error e \<and> Timeout e) \<longrightarrow>
      scan task t0 el dial =
        \<lparr>IP = Task_IP task, Port = Task_Port task, Status = StatusClosed,
         Timestamp = t0, Duration = el, Error = Error_text e\<rparr>)"
  by (auto simp: scan_status scan_DialFailed)

theorem scan_failure_closed_witness:
  "\<not> (is_net_Error \<lparr>is_net_Error = True, Timeout = False, Error_text = ''socket: too many open files''\<rparr>
       \<and> Timeout \<lparr>is_net_Error = True, Timeout = False, Error_text = ''socket: too many open files''\<rparr>) \<and>
   scan \<lparr>Task_IP = ''10.0.0.1'', Task_Port = 80\<rparr> 0 1
     (DialFailed \<lparr>is_net_Error = True, Timeout = False,
                  Error_text = ''socket: too many open files''\<rparr>)
   = \<lparr>IP = ''10.0.0.1'', Port = 80, Status = StatusClosed,
      Timestamp = 0, Duration = 1, Error = ''socket: too many open files''\<rparr>"
  using scan_failure_closed [of "\<lparr>Task_IP = ''10.0.0.1'', Task_Port = 80\<rparr>" 0 1
      "DialFailed \<lparr>is_net_Error = True, Timeout = False, Error_text = ''socket: too many open files''\<rparr>"
      "\<lparr>is_net_Error = True, Timeout = False, Error_text = ''socket: too many open files''\<rparr>"]
  by simp

section \<open>The Collector: exactly-once accounting\<close>

lemma updateSummary_total:
  "TotalScanned (summary (updateSummary c r)) = TotalScanned (summary c) + 1"
  by (simp add: updateSummary_def Let_def)

lemma updateSummary_counters:
  "counters_sum (summary (updateSummary c r)) =
     counters_sum (summary c) + (if known_status (Status r) then 1 else 0)"
  using status_consts_distinct
  by (auto simp: updateSummary_def Let_def counters_sum_def known_status_def)

lemma updateSummary_frame:
  "results (updateSummary c r) = results c"
  "resultChan (updateSummary c r) = resultChan c"
  "doneChan_closed (updateSummary c r) = doneChan_closed c"
  by (simp_all add: updateSummary_def Let_def)

lemma printResult_frame:
  "results (printResult c r) = results c"
  "summary (printResult c r) = summary c"
  "resultChan (printResult c r) = resultChan c"
  "doneChan_closed (printResult c r) = doneChan_closed c"
  by (simp_all add: printResult_def)

lemma collect_body_results: "results (collect_body c r) = results c @ [r]"
  by (simp add: collect_body_def Let_def printResult_frame updateSummary_frame)

lemma collect_body_chan: "resultChan (collect_body c r) = resultChan c"
  by (simp add: collect_body_def Let_def printResult_frame updateSummary_frame)

lemma collect_body_total:
  "TotalScanned (summary (collect_body c r)) = TotalScanned (summary c) + 1"
  by (simp add: collect_body_def Let_def printResult_frame updateSummary_total)

lemma collect_body_counters:
  "counters_sum (summary (collect_body c r)) =
     counters_sum (summary c) + (if known_status (Status r) then 1 else 0)"
  by (simp add: collect_body_def Let_def printResult_frame updateSummary_counters)

lemma collect_body_accounted: "accounted c \<Longrightarrow> accounted (collect_body c r)"
  by (simp add: accounted_def collect_body_results collect_body_total collect_body_counters
      known_count_def)

lemma collect_rest_results: "results (collect_rest rs c) = results c @ rs"
  by (induction rs arbitrary: c) (simp_all add: collect_body_results)

lemma collect_rest_accounted: "accounted c \<Longrightarrow> accounted (collect_rest rs c)"
proof (induction rs arbitrary: c)
  case Nil
  then show ?case by (simp add: accounted_def)
next
  case (Cons r rs)
  have "accounted (c\<lparr>resultChan := (resultChan c)\<lparr>chan_buf := rs\<rparr>\<rparr>)"
    using Cons.prems by (simp add: accounted_def)
  then show ?case by (simp add: Cons.IH collect_body_accounted)
qed

lemma collect_rest_done: "doneChan_closed (collect_rest rs c)"
  by (induction rs arbitrary: c) simp_all

text \<open>What has been sent and not yet folded is what the channel holds.\<close>

lemma exec_step:
  assumes "exec e c = Some c'"
  shows "results c' @ chan_buf (resultChan c') = results c @ chan_buf (resultChan c) @ submitted [e]"
    and "accounted c \<Longrightarrow> accounted c'"
    and "chan_closed (resultChan c') = chan_closed (resultChan c)"
proof -
  show "results c' @ chan_buf (resultChan c') = results c @ chan_buf (resultChan c) @ submitted [e]"
    using assms
    by (cases e)
       (auto simp: Submit_def chan_send_def collect_turn_def chan_recv_def
          collect_body_results collect_body_chan
          split: if_splits list.splits)
  show "accounted c'" if "accounted c"
  proof (cases e)
    case (EvSubmit r)
    with assms that show ?thesis
      by (auto simp: Submit_def chan_send_def accounted_def split: if_splits)
  next
    case EvCollect
    show ?thesis
    proof (cases "chan_buf (resultChan c)")
      case Nil
      with assms EvCollect that show ?thesis
        by (auto simp: collect_turn_def chan_recv_def accounted_def split: if_splits)
    next
      case (Cons r rs)
      have "accounted (c\<lparr>resultChan := (resultChan c)\<lparr>chan_buf := rs\<rparr>\<rparr>)"
        using that by (simp add: accounted_def)
      then have "accounted (collect_body (c\<lparr>resultChan := (resultChan c)\<lparr>chan_buf := rs\<rparr>\<rparr>) r)"
        by (rule collect_body_accounted)
      with assms EvCollect Cons show ?thesis
        by (auto simp: collect_turn_def chan_recv_def split: if_splits)
    qed
  qed
  show "chan_closed (resultChan c') = chan_closed (resultChan c)"
    using assms
    by (cases e)
       (auto simp: Submit_def chan_send_def collect_turn_def chan_recv_def collect_body_chan
          split: if_splits list.splits)
qed

lemma submitted_append: "submitted (es @ fs) = submitted es @ submitted fs"
  by (induction es rule: submitted.induct) simp_all

lemma run_invariant:
  assumes "run evs c = Some c'"
  shows "results c' @ chan_buf (resultChan c') = results c @ chan_buf (resultChan c) @ submitted evs"
    and "accounted c \<Longrightarrow> accounted c'"
    and "chan_closed (resultChan c') = chan_closed (resultChan c)"
  using assms
proof (induction evs arbitrary: c)
  case Nil
  { case 1 then show ?case by simp }
  { case 2 then show ?case by simp }
  { case 3 then show ?case by simp }
next
  case (Cons e es)
  { case 1
    then obtain c1 where e: "exec e c = Some c1" and r: "run es c1 = Some c'"
      by (auto split: option.splits)
    have "submitted (e # es) = submitted [e] @ submitted es"
      using submitted_append[of "[e]" es] by simp
    with Cons.IH(1)[OF r] exec_step(1)[OF e] show ?case by simp }
  { case 2
    then obtain c1 where e: "exec e c = Some c1" and r: "run es c1 = Some c'"
      by (auto split: option.splits)
    from Cons.IH(2)[OF _ r] exec_step(2)[OF e] 2 show ?case by simp }
  { case 3
    then obtain c1 where e: "exec e c = Some c1" and r: "run es c1 = Some c'"
      by (auto split: option.splits)
    from Cons.IH(3)[OF r] exec_step(3)[OF e] show ?case by simp }
qed

lemma accounted_New: "accounted (NewCollector fmt verb t0)"
  by (simp add: accounted_def NewCollector_def counters_sum_def known_count_def)

lemma Close_open:
  assumes "\<not> chan_closed (resultChan c)"
  shows "\<exists>c'. Close c now = Done c' \<and>
           results c' = results c @ chan_buf (resultChan c) \<and>
           (accounted c \<longrightarrow> accounted c') \<and> doneChan_closed c'"
proof -
  let ?ch = "(resultChan c)\<lparr>chan_closed := True\<rparr>"
  let ?c1 = "collect_rest (chan_buf ?ch) (c\<lparr>resultChan := ?ch\<rparr>)"
  let ?c' = "?c1\<lparr>summary := (summary ?c1)\<lparr>EndTime := now,
                     Summary_Duration := now - StartTime (summary ?c1)\<rparr>\<rparr>"
  have cl: "Close c now = Done ?c'"
    using assms by (simp add: Close_def chan_close_def Let_def)
  have res: "results ?c' = results c @ chan_buf (resultChan c)"
    by (simp add: collect_rest_results)
  have acc: "accounted ?c'" if "accounted c"
  proof -
    have "accounted (c\<lparr>resultChan := ?ch\<rparr>)" using that by (simp add: accounted_def)
    then have "accounted ?c1" by (rule collect_rest_accounted)
    then show ?thesis by (simp add: accounted_def counters_sum_def)
  qed
  have dn: "doneChan_closed ?c'"
    by (simp add: collect_rest_done)
  from cl res acc dn show ?thesis by blast
qed


lemma known_count_all:
  "\<forall>r\<in>set rs. known_status (Status r) \<Longrightarrow> known_count rs = length rs"
  by (simp add: known_count_def)

text \<open>
  Claim C1. Take any interleaving \<open>evs\<close> of completed \<open>Submit\<close> calls (by any number of
  concurrent submitters) and turns of \<open>collect\<close>, started from a new Collector, and let
  \<open>N\<close> be the number of outcomes submitted, each with one of the four statuses. Then
  \<open>Close\<close> returns, and after it the snapshot has \<open>TotalScanned = N\<close> and
  \<open>OpenPorts + ClosedPorts + Filtered + Errors = N\<close> (and the collected outcomes are the
  submitted ones). Moreover every single fold of such an outcome into the summary
  preserves the equality of the four counters' sum and \<open>TotalScanned\<close>.
\<close>

theorem Collector_accounting:
  "(run evs (NewCollector fmt verb t0) = Some c \<and>
    (\<forall>r\<in>set (submitted evs). known_status (Status r))
    \<longrightarrow> (\<exists>c'. Close c now = Done c' \<and>
              TotalScanned (GetSummary c') = int (length (submitted evs)) \<and>
              OpenPorts (GetSummary c') + ClosedPorts (GetSummary c') +
                Filtered (GetSummary c') + Errors (GetSummary c') = int (length (submitted evs)) \<and>
              GetResults c' = submitted evs)) \<and>
   (known_status (Status r) \<and>
    OpenPorts (summary c0) + ClosedPorts (summary c0) + Filtered (summary c0) + Errors (summary c0)
      = TotalScanned (summary c0)
    \<longrightarrow> OpenPorts (summary (updateSummary c0 r)) + ClosedPorts (summary (updateSummary c0 r)) +
          Filtered (summary (updateSummary c0 r)) + Errors (summary (updateSummary c0 r))
        = TotalScanned (summary (updateSummary c0 r)))"
proof (intro conjI impI)
  assume a: "run evs (NewCollector fmt verb t0) = Some c \<and>
    (\<forall>r\<in>set (submitted evs). known_status (Status r))"
  let ?c0 = "NewCollector fmt verb t0"
  from a have r: "run evs ?c0 = Some c" and k: "\<forall>r\<in>set (submitted evs). known_status (Status r)"
    by simp_all
  have open0: "\<not> chan_closed (resultChan ?c0)" and empty0: "results ?c0 @ chan_buf (resultChan ?c0) = []"
    by (simp_all add: NewCollector_def make_chan_def)
  from run_invariant(3)[OF r] open0 have op: "\<not> chan_closed (resultChan c)" by simp
  from run_invariant(1)[OF r] empty0
  have sub: "results c @ chan_buf (resultChan c) = submitted evs" by simp
  from run_invariant(2)[OF r accounted_New] have acc: "accounted c" .
  from Close_open[OF op, of now] acc obtain c' where
    c': "Close c now = Done c'" "results c' = results c @ chan_buf (resultChan c)" "accounted c'"
    by blast
  from c'(2) sub have res: "results c' = submitted evs" by simp
  with c'(3) k have "TotalScanned (summary c') = int (length (submitted evs))"
    "counters_sum (summary c') = int (length (submitted evs))"
    by (simp_all add: accounted_def known_count_all)
  with c'(1) res show "\<exists>c'. Close c now = Done c' \<and>
              TotalScanned (GetSummary c') = int (length (submitted evs)) \<and>
              OpenPorts (GetSummary c') + ClosedPorts (GetSummary c') +
                Filtered (GetSummary c') + Errors (GetSummary c') = int (length (submitted evs)) \<and>
              GetResults c' = submitted evs"
    by (auto simp: GetSummary_def GetResults_def counters_sum_def)
next
  assume "known_status (Status r) \<and>
    OpenPorts (summary c0) + ClosedPorts (summary c0) + Filtered (summary c0) + Errors (summary c0)
      = TotalScanned (summary c0)"
  then show "OpenPorts (summary (updateSummary c0 r)) + ClosedPorts (summary (updateSummary c0 r)) +
          Filtered (summary (updateSummary c0 r)) + Errors (summary (updateSummary c0 r))
        = TotalScanned (summary (updateSummary c0 r))"
    using updateSummary_counters[of c0 r] updateSummary_total[of c0 r]
    by (simp add: counters_sum_def)
qed


theorem Collector_accounting_witness:
  "\<exists>c c'. run [EvSubmit (scan \<lparr>Task_IP = ''10.0.0.2'', Task_Port = 80\<rparr> 1 2 Connected),
               EvCollect,
               EvSubmit (scan \<lparr>Task_IP = ''10.0.0.1'', Task_Port = 80\<rparr> 1 3
                  (DialFailed \<lparr>is_net_Error = True, Timeout = True, Error_text = ''i/o timeout''\<rparr>))]
              (NewCollector ''text'' False 0) = Some c \<and>
     list_all (\<lambda>r. known_status (Status r))
       [scan \<lparr>Task_IP = ''10.0.0.2'', Task_Port = 80\<rparr> 1 2 Connected,
        scan \<lparr>Task_IP = ''10.0.0.1'', Task_Port = 80\<rparr> 1 3
          (DialFailed \<lparr>is_net_Error = True, Timeout = True, Error_text = ''i/o timeout''\<rparr>)] \<and>
     Close c 9 = Done c' \<and>
     TotalScanned (GetSummary c') = 2 \<and>
     OpenPorts (GetSummary c') + ClosedPorts (GetSummary c') +
       Filtered (GetSummary c') + Errors (GetSummary c') = 2 \<and>
     known_status (Status (scan \<lparr>Task_IP = ''10.0.0.2'', Task_Port = 80\<rparr> 1 2 Connected)) \<and>
     OpenPorts (summary (updateSummary (NewCollector ''text'' False 0)
         (scan \<lparr>Task_IP = ''10.0.0.2'', Task_Port = 80\<rparr> 1 2 Connected))) +
       ClosedPorts (summary (updateSummary (NewCollector ''text'' False 0)
         (scan \<lparr>Task_IP = ''10.0.0.2'', Task_Port = 80\<rparr> 1 2 Connected))) +
       Filtered (summary (updateSummary (NewCollector ''text'' False 0)
         (scan \<lparr>Task_IP = ''10.0.0.2'', Task_Port = 80\<rparr> 1 2 Connected))) +
       Errors (summary (updateSummary (NewCollector ''text'' False 0)
         (scan \<lparr>Task_IP = ''10.0.0.2'', Task_Port = 80\<rparr> 1 2 Connected)))
     = TotalScanned (summary (updateSummary (NewCollector ''text'' False 0)
         (scan \<lparr>Task_IP = ''10.0.0.2'', Task_Port = 80\<rparr> 1 2 Connected)))"
proof -
  let ?r1 = "scan \<lparr>Task_IP = ''10.0.0.2'', Task_Port = 80\<rparr> 1 2 Connected"
  let ?r2 = "scan \<lparr>Task_IP = ''10.0.0.1'', Task_Port = 80\<rparr> 1 3
                  (DialFailed \<lparr>is_net_Error = True, Timeout = True, Error_text = ''i/o timeout''\<rparr>)"
  let ?evs = "[EvSubmit ?r1, EvCollect, EvSubmit ?r2]"
  let ?c0 = "NewCollector ''text'' False 0"
  have k1: "known_status (Status ?r1)" and k2: "known_status (Status ?r2)"
    by (simp_all add: scan_Connected scan_DialFailed known_status_def)
  have "\<exists>c. run ?evs ?c0 = Some c"
    by (simp add: NewCollector_def make_chan_def Submit_def chan_send_def collect_turn_def
        chan_recv_def collect_body_chan)
  then obtain c where c: "run ?evs ?c0 = Some c" ..
  have s0: "OpenPorts (summary ?c0) + ClosedPorts (summary ?c0) + Filtered (summary ?c0)
      + Errors (summary ?c0) = TotalScanned (summary ?c0)"
    by (simp add: NewCollector_def)
  note inst = Collector_accounting [of ?evs "''text''" False 0 c 9 ?r1 ?c0]
  from inst c k1 k2 obtain c' where c': "Close c 9 = Done c'"
    "TotalScanned (GetSummary c') = 2"
    "OpenPorts (GetSummary c') + ClosedPorts (GetSummary c') +
       Filtered (GetSummary c') + Errors (GetSummary c') = 2"
    by auto
  from inst k1 s0 have st: "OpenPorts (summary (updateSummary ?c0 ?r1)) +
      ClosedPorts (summary (updateSummary ?c0 ?r1)) + Filtered (summary (updateSummary ?c0 ?r1)) +
      Errors (summary (updateSummary ?c0 ?r1)) = TotalScanned (summary (updateSummary ?c0 ?r1))"
    by blast
  from c c' k1 k2 st show ?thesis by auto
qed

section \<open>The order of the collected outcomes\<close>

lemma result_less_key:
  "result_less a b \<longleftrightarrow> (IP a, Port a) < (IP b, Port b)"
  by (auto simp: result_less_def)

lemma insert_by_result_less:
  "insert_by result_less x xs = insort_key (\<lambda>r. (IP r, Port r)) x xs"
  by (induction xs) (auto simp: result_less_key not_less)

lemma sort_Slice_result_less:
  "sort_Slice result_less xs = sort_key (\<lambda>r. (IP r, Port r)) xs"
proof -
  have "insert_by result_less = insort_key (\<lambda>r. (IP r, Port r))"
    by (intro ext) (rule insert_by_result_less)
  then show ?thesis by (simp add: sort_Slice_def sort_key_def)
qed

lemma WriteResults_results:
  "results (snd (WriteResults io c)) = sort_Slice result_less (results c)"
  by (simp add: WriteResults_def Let_def writeJSON_def writeCSV_def writeText_def)

text \<open>
  Claim C5, amended. \<open>WriteResults\<close> sorts the collected outcomes in place by
  (IP, port) ascending, IP as a string, once, when the results are written (which every
  \<open>Scan\<close> does before it returns); \<open>GetResults\<close> after it returns the same outcomes in
  that order. \<open>GetResults\<close> itself returns the outcomes as they are stored, and
  collection only appends an outcome at the end: no order is maintained while collecting.
\<close>

theorem WriteResults_sorts:
  "sorted (map (\<lambda>r. (IP r, Port r)) (GetResults (snd (WriteResults io c)))) \<and>
   sorted_wrt (\<lambda>a b. \<not> result_less b a) (GetResults (snd (WriteResults io c))) \<and>
   mset (GetResults (snd (WriteResults io c))) = mset (results c) \<and>
   GetResults c = results c \<and>
   results (collect_body c r) = results c @ [r]"
proof -
  let ?k = "\<lambda>r. (IP r, Port r)"
  have g: "GetResults (snd (WriteResults io c)) = sort_key ?k (results c)"
    by (simp add: GetResults_def WriteResults_results sort_Slice_result_less)
  have s: "sorted (map ?k (sort_key ?k (results c)))" by (rule sorted_sort_key)
  have rel: "(\<lambda>a b. \<not> result_less b a) = (\<lambda>a b. ?k a \<le> ?k b)"
    by (intro ext) (simp only: result_less_key not_less)
  from s have w: "sorted_wrt (\<lambda>a b. \<not> result_less b a) (sort_key ?k (results c))"
    unfolding rel by (simp only: sorted_map)
  show ?thesis using g s w by (simp add: GetResults_def collect_body_results)
qed

text \<open>
  Claim C5 says that the retrieval of all results returns them sorted by (host, port),
  the sort being applied at retrieval. \<open>GetResults\<close> does not sort: after two outcomes
  have been collected, 10.0.0.2 before 10.0.0.1, it returns them in that order of arrival,
  though the second is the smaller one in the order of \<open>WriteResults\<close>.
\<close>

theorem GetResults_arrival_order_counterexample:
  "map_option GetResults
     (run [EvSubmit \<lparr>IP = ''10.0.0.2'', Port = 80, Status = StatusOpen,
                     Timestamp = 1, Duration = 2, Error = []\<rparr>,
           EvSubmit \<lparr>IP = ''10.0.0.1'', Port = 80, Status = StatusOpen,
                     Timestamp = 1, Duration = 3, Error = []\<rparr>,
           EvCollect, EvCollect]
        (NewCollector ''json'' False 0))
   = Some [\<lparr>IP = ''10.0.0.2'', Port = 80, Status = StatusOpen,
             Timestamp = 1, Duration = 2, Error = []\<rparr>,
           \<lparr>IP = ''10.0.0.1'', Port = 80, Status = StatusOpen,
             Timestamp = 1, Duration = 3, Error = []\<rparr>] \<and>
   result_less
     \<lparr>IP = ''10.0.0.1'', Port = 80, Status = StatusOpen, Timestamp = 1, Duration = 3, Error = []\<rparr>
     \<lparr>IP = ''10.0.0.2'', Port = 80, Status = StatusOpen, Timestamp = 1, Duration = 2, Error = []\<rparr>"
  by (simp add: NewCollector_def make_chan_def Submit_def chan_send_def collect_turn_def
      chan_recv_def collect_body_def updateSummary_def Let_def GetResults_def result_less_def)

section \<open>Cancellation of a scan\<close>



















section \<open>CIDR expansion\<close>

lemma length_incrementIP_from: "length (incrementIP_from j ip) = length ip"
  by (induction j arbitrary: ip) (simp_all add: Let_def)

lemma length_incrementIP: "length (incrementIP ip) = length ip"
  by (simp add: incrementIP_def length_incrementIP_from)

lemma To4_len4: "length ip = 4 \<Longrightarrow> To4 ip = ip"
  by (simp add: To4_def)

lemma length4E:
  assumes "length (ip :: 'a list) = 4"
  obtains a b c d where "ip = [a, b, c, d]"
proof -
  from assms obtain a r1 where 1: "ip = a # r1" "length r1 = 3" by (cases ip) auto
  then obtain b r2 where 2: "r1 = b # r2" "length r2 = 2" by (cases r1) auto
  then obtain c r3 where 3: "r2 = c # r3" "length r3 = 1" by (cases r2) auto
  then obtain d where 4: "r3 = [d]" by (cases r3) auto
  from 1 2 3 4 that show ?thesis by simp
qed

lemma map2_and_zero:
  "length ip = 4 \<Longrightarrow> map2 (\<lambda>a b. a AND b) ip [0, 0, 0, 0] = [0, 0, 0, 0 :: 8 word]"
  by (erule length4E) simp

text \<open>The network 0.0.0.0/0 contains every 4-byte address.\<close>

lemma Contains_all_IPv4:
  assumes "length ip = 4"
  shows "Contains \<lparr>net_IP = [0, 0, 0, 0], net_Mask = [0, 0, 0, 0]\<rparr> ip"
proof -
  have n: "networkNumberAndMask \<lparr>net_IP = [0, 0, 0, 0], net_Mask = [0, 0, 0, 0]\<rparr>
      = ([0, 0, 0, 0], [0, 0, 0, 0])"
    by (simp add: networkNumberAndMask_def To4_def Let_def)
  from assms have l: "ip \<noteq> []" by auto
  show ?thesis
    using assms l by (simp add: Contains_def n To4_len4 map2_and_zero)
qed

lemma parseCIDR_loop_all_IPv4:
  assumes ret: "parseCIDR_loop ipNet ip ips = Some y"
  shows "\<not> (ipNet = \<lparr>net_IP = [0, 0, 0, 0], net_Mask = [0, 0, 0, 0]\<rparr> \<and> length ip = 4)"
proof (rule parseCIDR_loop.raw_induct
    [where P = "\<lambda>ipNet ip ips y.
       \<not> (ipNet = \<lparr>net_IP = [0, 0, 0, 0], net_Mask = [0, 0, 0, 0]\<rparr> \<and> length ip = 4)",
     OF _ ret])
  fix loop :: "IPNet \<Rightarrow> ipaddr \<Rightarrow> ipaddr list \<Rightarrow> ipaddr list option"
    and ipNet ip ips y
  assume IH: "\<And>ipNet ip ips y. loop ipNet ip ips = Some y \<Longrightarrow>
      \<not> (ipNet = \<lparr>net_IP = [0, 0, 0, 0], net_Mask = [0, 0, 0, 0]\<rparr> \<and> length ip = 4)"
    and eq: "(if Contains ipNet ip then loop ipNet (incrementIP ip) (ips @ [ip]) else Some ips)
      = Some y"
  show "\<not> (ipNet = \<lparr>net_IP = [0, 0, 0, 0], net_Mask = [0, 0, 0, 0]\<rparr> \<and> length ip = 4)"
  proof
    assume a: "ipNet = \<lparr>net_IP = [0, 0, 0, 0], net_Mask = [0, 0, 0, 0]\<rparr> \<and> length ip = 4"
    then have c: "Contains ipNet ip" using Contains_all_IPv4 by simp
    from a have l: "length (incrementIP ip) = 4" by (simp add: length_incrementIP)
    from eq c have "loop ipNet (incrementIP ip) (ips @ [ip]) = Some y" by simp
    from IH[OF this] a l show False by simp
  qed
qed

lemma CIDRMask_0_32: "CIDRMask 0 32 = [0, 0, 0, 0]"
  by code_simp

lemma ParseCIDR_IPv4_zero:
  "ParseCIDR_IPv4 a b c d 0 =
     Inr (v4InV6Prefix @ [a, b, c, d], \<lparr>net_IP = [0, 0, 0, 0], net_Mask = [0, 0, 0, 0]\<rparr>)"
  by (simp add: ParseCIDR_IPv4_def CIDRMask_0_32 Mask_def v4InV6Prefix_def Let_def)

text \<open>
  Claim C6 says that for every valid CIDR whose block holds more than two addresses the
  expansion returns the block's addresses without the first and the last. For the block
  \<open>0.0.0.0/0\<close> the expansion returns nothing at all: every address the loop reaches is
  in the network, and \<open>incrementIP\<close> wraps around from 255.255.255.255 to 0.0.0.0, so
  the loop of \<open>parseCIDR\<close> never ends.
\<close>

theorem parseCIDR_whole_space_never_returns: "parseCIDR (ParseCIDR_IPv4 0 0 0 0 0) = None"
proof -
  let ?net = "\<lparr>net_IP = [0, 0, 0, 0], net_Mask = [0, 0, 0, 0 :: 8 word]\<rparr>"
  have m: "Mask (v4InV6Prefix @ [0, 0, 0, 0]) [0, 0, 0, 0] = [0, 0, 0, 0]"
    by (simp add: Mask_def v4InV6Prefix_def Let_def)
  have "parseCIDR_loop ?net [0, 0, 0, 0] [] = None"
  proof (cases "parseCIDR_loop ?net [0, 0, 0, 0] []")
    case None
    then show ?thesis .
  next
    case (Some y)
    from parseCIDR_loop_all_IPv4[OF this] show ?thesis by simp
  qed
  then show ?thesis by (simp add: parseCIDR_def ParseCIDR_IPv4_zero m)
qed


text \<open>
  A block of four addresses, for comparison: the loop collects all four and the first and
  the last are cut off.
\<close>

lemma Contains_30:
  "Contains \<lparr>net_IP = [192, 168, 1, 76], net_Mask = [255, 255, 255, 252]\<rparr> [192, 168, 1, d]
     \<longleftrightarrow> d AND 252 = 76"
  by (simp add: Contains_def networkNumberAndMask_def To4_def Let_def)

lemma parseCIDR_30:
  "parseCIDR (ParseCIDR_IPv4 192 168 1 77 30) = Some (Inr [[192, 168, 1, 77], [192, 168, 1, 78]])"
proof -
  have m: "CIDRMask 30 32 = [255, 255, 255, 252]" by code_simp
  have p: "ParseCIDR_IPv4 192 168 1 77 30 =
      Inr (v4InV6Prefix @ [192, 168, 1, 77],
           \<lparr>net_IP = [192, 168, 1, 76], net_Mask = [255, 255, 255, 252]\<rparr>)"
    by (simp add: ParseCIDR_IPv4_def m Mask_def v4InV6Prefix_def Let_def)
  have s: "Mask (v4InV6Prefix @ [192, 168, 1, 77]) [255, 255, 255, 252] = [192, 168, 1, 76]"
    by (simp add: Mask_def v4InV6Prefix_def Let_def)
  have i: "incrementIP [192, 168, 1, 76] = [192, 168, 1, 77]"
    "incrementIP [192, 168, 1, 77] = [192, 168, 1, 78]"
    "incrementIP [192, 168, 1, 78] = [192, 168, 1, 79]"
    "incrementIP [192, 168, 1, 79] = [192, 168, 1, 80]"
    by code_simp+
  have l: "parseCIDR_loop \<lparr>net_IP = [192, 168, 1, 76], net_Mask = [255, 255, 255, 252]\<rparr>
      [192, 168, 1, 76] [] =
      Some [[192, 168, 1, 76], [192, 168, 1, 77], [192, 168, 1, 78], [192, 168, 1, 79]]"
    by (simp add: parseCIDR_loop.simps Contains_30 i)
  show ?thesis by (simp add: parseCIDR_def p s l)
qed

text \<open>Blocks of two addresses and of one: nothing is cut off.\<close>

lemma parseCIDR_31:
  "parseCIDR (ParseCIDR_IPv4 10 0 0 5 31) = Some (Inr [[10, 0, 0, 4], [10, 0, 0, 5]])"
proof -
  have m: "CIDRMask 31 32 = [255, 255, 255, 254]" by code_simp
  have p: "ParseCIDR_IPv4 10 0 0 5 31 =
      Inr (v4InV6Prefix @ [10, 0, 0, 5],
           \<lparr>net_IP = [10, 0, 0, 4], net_Mask = [255, 255, 255, 254]\<rparr>)"
    by (simp add: ParseCIDR_IPv4_def m Mask_def v4InV6Prefix_def Let_def)
  have s: "Mask (v4InV6Prefix @ [10, 0, 0, 5]) [255, 255, 255, 254] = [10, 0, 0, 4]"
    by (simp add: Mask_def v4InV6Prefix_def Let_def)
  have c: "Contains \<lparr>net_IP = [10, 0, 0, 4], net_Mask = [255, 255, 255, 254]\<rparr> [10, 0, 0, d]
     \<longleftrightarrow> d AND 254 = 4" for d
    by (simp add: Contains_def networkNumberAndMask_def To4_def Let_def)
  have i: "incrementIP [10, 0, 0, 4] = [10, 0, 0, 5]"
    "incrementIP [10, 0, 0, 5] = [10, 0, 0, 6]"
    by code_simp+
  have l: "parseCIDR_loop \<lparr>net_IP = [10, 0, 0, 4], net_Mask = [255, 255, 255, 254]\<rparr>
      [10, 0, 0, 4] [] = Some [[10, 0, 0, 4], [10, 0, 0, 5]]"
    by (simp add: parseCIDR_loop.simps c i)
  show ?thesis by (simp add: parseCIDR_def p s l)
qed

lemma parseCIDR_32:
  "parseCIDR (ParseCIDR_IPv4 10 0 0 5 32) = Some (Inr [[10, 0, 0, 5]])"
proof -
  have m: "CIDRMask 32 32 = [255, 255, 255, 255]" by code_simp
  have p: "ParseCIDR_IPv4 10 0 0 5 32 =
      Inr (v4InV6Prefix @ [10, 0, 0, 5],
           \<lparr>net_IP = [10, 0, 0, 5], net_Mask = [255, 255, 255, 255]\<rparr>)"
    by (simp add: ParseCIDR_IPv4_def m Mask_def v4InV6Prefix_def Let_def)
  have s: "Mask (v4InV6Prefix @ [10, 0, 0, 5]) [255, 255, 255, 255] = [10, 0, 0, 5]"
    by (simp add: Mask_def v4InV6Prefix_def Let_def)
  have c: "Contains \<lparr>net_IP = [10, 0, 0, 5], net_Mask = [255, 255, 255, 255]\<rparr> [10, 0, 0, d]
     \<longleftrightarrow> d AND 255 = 5" for d
    by (simp add: Contains_def networkNumberAndMask_def To4_def Let_def)
  have i: "incrementIP [10, 0, 0, 5] = [10, 0, 0, 6]"
    by code_simp
  have l: "parseCIDR_loop \<lparr>net_IP = [10, 0, 0, 5], net_Mask = [255, 255, 255, 255]\<rparr>
      [10, 0, 0, 5] [] = Some [[10, 0, 0, 5]]"
    by (simp add: parseCIDR_loop.simps c i)
  show ?thesis by (simp add: parseCIDR_def p s l)
qed

section \<open>Outcomes at the end of Scan\<close>

text \<open>
  Claim C3 says that no outcome a worker has committed to reporting is lost during
  shutdown. Of its two halves the first holds: \<open>Close\<close> of the Collector folds every
  outcome submitted before it (lemma \<open>Close_open\<close> above). The second does not. In the
  scan of one listening port by one worker below, the worker has taken the task when
  \<open>Scan\<close> goes on: \<open>s.pool.Close()\<close> closes the task channel and waits for no worker,
  \<open>Scan\<close> closes the result channel, the Collector closes empty, the results are written
  and \<open>Scan\<close> returns without error. The worker's outcome is in no result and no
  counter, and its send on the closed channel panics.
\<close>

theorem Scan_loses_outcome:
  "course listening 9 True
     [Main, Worker 0 False, Main, Main, Main, CollectResults, Main, Collect, Main, Main,
      Worker 0 False]
     (Scan_started 1 ''text'' [''127.0.0.1''] [80])
   = Some
      \<lparr>ctx_done = False,
       taskChan = \<lparr>chan_buf = [], chan_cap = 10, chan_closed = True\<rparr>,
       scan_resultChan = \<lparr>chan_buf = [], chan_cap = 1000, chan_closed = True\<rparr>,
       collector =
         \<lparr>results = [],
          summary = \<lparr>TotalScanned = 0, OpenPorts = 0, ClosedPorts = 0, Filtered = 0, Errors = 0,
                     Summary_Duration = 9, StartTime = 0, EndTime = 9\<rparr>,
          resultChan = \<lparr>chan_buf = [], chan_cap = 1000, chan_closed = True\<rparr>,
          doneChan_closed = True, writer = [], format = ''text'', verbose = False\<rparr>,
       workers = [WPanic \<lparr>IP = ''127.0.0.1'', Port = 80, Status = StatusOpen, Timestamp = 0,
                          Duration = 0, Error = []\<rparr>],
       collectResults = FReturned,
       main_at = MReturned None\<rparr>"
  by code_simp

text \<open>
  The same loss one step later: the outcome is in the result channel when \<open>Scan\<close> closes
  it and then closes the Collector's channel, and \<open>collectResults\<close>, still handing the
  outcome over, panics in \<open>Submit\<close>.
\<close>

lemma Scan_collectResults_panics:
  "course listening 9 True
     [Main, Worker 0 False, Worker 0 False, Main, Main, Main, Main, CollectResults, CollectResults]
     (Scan_started 1 ''text'' [''127.0.0.1''] [80])
   = Some
      \<lparr>ctx_done = False,
       taskChan = \<lparr>chan_buf = [], chan_cap = 10, chan_closed = True\<rparr>,
       scan_resultChan = \<lparr>chan_buf = [], chan_cap = 1000, chan_closed = True\<rparr>,
       collector =
         \<lparr>results = [],
          summary = \<lparr>TotalScanned = 0, OpenPorts = 0, ClosedPorts = 0, Filtered = 0, Errors = 0,
                     Summary_Duration = 0, StartTime = 0, EndTime = 0\<rparr>,
          resultChan = \<lparr>chan_buf = [], chan_cap = 1000, chan_closed = True\<rparr>,
          doneChan_closed = False, writer = [], format = ''text'', verbose = False\<rparr>,
       workers = [WSelect],
       collectResults = FPanic \<lparr>IP = ''127.0.0.1'', Port = 80, Status = StatusOpen,
                                 Timestamp = 0, Duration = 0, Error = []\<rparr>,
       main_at = MWaitDone None\<rparr>"
  by code_simp

text \<open>
  And a course where every goroutine is done before \<open>Scan\<close> closes the channels: the
  outcome is collected, counted and written.
\<close>

lemma Scan_in_order:
  "course listening 9 True
     [Main, Worker 0 False, Worker 0 False, CollectResults, CollectResults, Collect, Main, Main,
      Main, CollectResults, Main, Collect, Main, Main, Worker 0 False]
     (Scan_started 1 ''text'' [''127.0.0.1''] [80])
   = Some
      \<lparr>ctx_done = False,
       taskChan = \<lparr>chan_buf = [], chan_cap = 10, chan_closed = True\<rparr>,
       scan_resultChan = \<lparr>chan_buf = [], chan_cap = 1000, chan_closed = True\<rparr>,
       collector =
         \<lparr>results = [\<lparr>IP = ''127.0.0.1'', Port = 80, Status = StatusOpen, Timestamp = 0,
                        Duration = 0, Error = []\<rparr>],
          summary = \<lparr>TotalScanned = 1, OpenPorts = 1, ClosedPorts = 0, Filtered = 0, Errors = 0,
                     Summary_Duration = 9, StartTime = 0, EndTime = 9\<rparr>,
          resultChan = \<lparr>chan_buf = [], chan_cap = 1000, chan_closed = True\<rparr>,
          doneChan_closed = True, writer = [TextLine ''127.0.0.1'' 80 StatusOpen],
          format = ''text'', verbose = False\<rparr>,
       workers = [WReturned],
       collectResults = FReturned,
       main_at = MReturned None\<rparr>"
  by code_simp

end
